theory Spec2Isabelle
  imports Complex_Main
begin

section \<open>Data model\<close>

text \<open>
  A candle series is a pandas DataFrame with the columns timestamp, open, high, low,
  close and volume and a default integer index (after \<open>reset_index\<close> or straight from the
  price feed), so it is a list of rows and the index of a row is its position.
  A price is the real number its binary64 value stands for (not-a-number and infinite
  samples are outside the model); comparisons of floats are comparisons of these reals,
  a product of two floats is the rounded product (see the section on binary floating
  point); the two differences the code takes (\<open>gap_size\<close>, and the one in the
  \<open>equals\<close> test of an alert) are kept as exact differences. Timestamps are integers
  (milliseconds).
\<close>

record candle =
  timestamp :: int
  open_price :: real
  high :: real
  low :: real
  close_price :: real
  volume :: real

text \<open>The strings \<open>'Bullish'\<close> and \<open>'Bearish'\<close>; a filter is one of them or \<open>None\<close>.\<close>

datatype fvg_type = Bullish | Bearish

record fvg =
  fvg_kind :: fvg_type
  fvg_index :: nat
  fvg_timestamp :: int
  fvg_low :: real
  fvg_high :: real
  gap_size :: real
  candle_1 :: candle
  candle_2 :: candle
  candle_3 :: candle

section \<open>TradingEngine.detect_fvg\<close>

text \<open>The body of the loop of \<open>detect_fvg\<close> at index \<open>i\<close>: what is appended to \<open>fvg_list\<close>.\<close>

definition fvg_at :: "candle list \<Rightarrow> fvg_type option \<Rightarrow> nat \<Rightarrow> fvg list" where
  "fvg_at df_completed fvg_type_filter i =
     (if high (df_completed ! (i - 2)) < low (df_completed ! i) then
        (if fvg_type_filter = None \<or> fvg_type_filter = Some Bullish then
           [\<lparr>fvg_kind = Bullish, fvg_index = i,
             fvg_timestamp = timestamp (df_completed ! i),
             fvg_low = high (df_completed ! (i - 2)),
             fvg_high = low (df_completed ! i),
             gap_size = low (df_completed ! i) - high (df_completed ! (i - 2)),
             candle_1 = df_completed ! (i - 2),
             candle_2 = df_completed ! (i - 1),
             candle_3 = df_completed ! i\<rparr>]
         else [])
      else if low (df_completed ! (i - 2)) > high (df_completed ! i) then
        (if fvg_type_filter = None \<or> fvg_type_filter = Some Bearish then
           [\<lparr>fvg_kind = Bearish, fvg_index = i,
             fvg_timestamp = timestamp (df_completed ! i),
             fvg_low = high (df_completed ! i),
             fvg_high = low (df_completed ! (i - 2)),
             gap_size = low (df_completed ! (i - 2)) - high (df_completed ! i),
             candle_1 = df_completed ! (i - 2),
             candle_2 = df_completed ! (i - 1),
             candle_3 = df_completed ! i\<rparr>]
         else [])
      else [])"

text \<open>The loop \<open>for i in range(start, len(df_completed))\<close>, over the list of its indices.\<close>

fun fvg_loop :: "candle list \<Rightarrow> fvg_type option \<Rightarrow> nat list \<Rightarrow> fvg list" where
  "fvg_loop df_completed fvg_type_filter [] = []"
| "fvg_loop df_completed fvg_type_filter (i # rest) =
     fvg_at df_completed fvg_type_filter i @ fvg_loop df_completed fvg_type_filter rest"

definition detect_fvg :: "candle list \<Rightarrow> fvg_type option \<Rightarrow> int \<Rightarrow> fvg list" where
  "detect_fvg df fvg_type_filter start_idx =
     (if length df < 4 then []
      else let df_completed = butlast df in
        if length df_completed < 3 then []
        else let start = max 2 start_idx in
          fvg_loop df_completed fvg_type_filter [nat start ..< length df_completed])"

text \<open>
  The contract of the detector in the words of its specification: drop the last candle; for
  every index \<open>i\<close> from \<open>max(2, start)\<close> to the end of what remains, a Bullish gap iff
  \<open>candle[i-2].high < candle[i].low\<close> and a Bearish gap iff
  \<open>candle[i-2].low > candle[i].high\<close>, each tested on its own; a filter suppresses the
  case it does not name; ascending index order.
\<close>

definition bullish_gap :: "candle list \<Rightarrow> nat \<Rightarrow> fvg" where
  "bullish_gap cs i =
     \<lparr>fvg_kind = Bullish, fvg_index = i, fvg_timestamp = timestamp (cs ! i),
      fvg_low = high (cs ! (i - 2)), fvg_high = low (cs ! i),
      gap_size = low (cs ! i) - high (cs ! (i - 2)),
      candle_1 = cs ! (i - 2), candle_2 = cs ! (i - 1), candle_3 = cs ! i\<rparr>"

definition bearish_gap :: "candle list \<Rightarrow> nat \<Rightarrow> fvg" where
  "bearish_gap cs i =
     \<lparr>fvg_kind = Bearish, fvg_index = i, fvg_timestamp = timestamp (cs ! i),
      fvg_low = high (cs ! i), fvg_high = low (cs ! (i - 2)),
      gap_size = low (cs ! (i - 2)) - high (cs ! i),
      candle_1 = cs ! (i - 2), candle_2 = cs ! (i - 1), candle_3 = cs ! i\<rparr>"

definition spec_gaps_at :: "candle list \<Rightarrow> fvg_type option \<Rightarrow> nat \<Rightarrow> fvg list" where
  "spec_gaps_at cs flt i =
     (if high (cs ! (i - 2)) < low (cs ! i) \<and> flt \<noteq> Some Bearish then [bullish_gap cs i] else []) @
     (if low (cs ! (i - 2)) > high (cs ! i) \<and> flt \<noteq> Some Bullish then [bearish_gap cs i] else [])"

definition spec_detect_fvg :: "candle list \<Rightarrow> fvg_type option \<Rightarrow> int \<Rightarrow> fvg list" where
  "spec_detect_fvg df flt start_idx =
     concat (map (spec_gaps_at (butlast df) flt) [nat (max 2 start_idx) ..< length (butlast df)])"

text \<open>A completed candle is well formed when its low is not above its high.\<close>

definition well_formed :: "candle \<Rightarrow> bool" where
  "well_formed c = (low c \<le> high c)"

section \<open>Binary floating point\<close>

text \<open>
  The prices are IEEE 754 binary64 numbers and the one arithmetic operation of the
  direction policy, a multiplication by a decimal literal, rounds: to the nearest
  representable number, ties to the one with an even significand. \<open>round_double\<close> is that
  rounding for an exponent unbounded above (53 significant bits, spacing \<open>2^-1074\<close> below
  \<open>2^-1022\<close>); a product whose rounded magnitude reaches \<open>2^1024\<close> overflows to an
  infinity. A decimal literal such as \<open>1.001\<close> is the rounded value of that decimal.
\<close>

text \<open>The nearest integer, a tie going to the even one.\<close>

definition round_half_even :: "real \<Rightarrow> int" where
  "round_half_even r =
     (let f = \<lfloor>r\<rfloor>; d = r - of_int f
      in if d < 1 / 2 then f else if d > 1 / 2 then f + 1 else if even f then f else f + 1)"

text \<open>
  The exponent \<open>e\<close> with \<open>2^e \<le> |x| < 2^(e+1)\<close>, not below \<open>-1022\<close> (the subnormal numbers
  share the exponent of the smallest normal ones), and the spacing \<open>2^(e-52)\<close> of the
  representable numbers there.
\<close>

definition binade :: "real \<Rightarrow> int" where
  "binade x = max \<lfloor>log 2 \<bar>x\<bar>\<rfloor> (- 1022)"

definition ulp :: "real \<Rightarrow> real" where
  "ulp x = 2 powr of_int (binade x - 52)"

definition round_double :: "real \<Rightarrow> real" where
  "round_double x = (if x = 0 then 0 else of_int (round_half_even (x / ulp x)) * ulp x)"

text \<open>The result of a multiplication: a finite number or an infinity.\<close>

datatype float64 = NegInf | Num real | PosInf

definition fmul :: "real \<Rightarrow> real \<Rightarrow> float64" where
  "fmul x y =
     (let r = round_double (x * y)
      in if 2 ^ 1024 \<le> r then PosInf else if r \<le> - (2 ^ 1024) then NegInf else Num r)"

text \<open>
  The closes on which neither product of the policy underflows or overflows: from
  \<open>2^-1020\<close> to \<open>2^1022\<close>.
\<close>

definition in_normal_range :: "real \<Rightarrow> bool" where
  "in_normal_range c = (1 / 2 ^ 1020 \<le> c \<and> c \<le> 2 ^ 1022)"

text \<open>\<open>a > p\<close> and \<open>a < p\<close> for a finite \<open>a\<close> and a product \<open>p\<close>.\<close>

fun greater_than :: "real \<Rightarrow> float64 \<Rightarrow> bool" where
  "greater_than a NegInf = True"
| "greater_than a (Num r) = (a > r)"
| "greater_than a PosInf = False"

fun less_than :: "real \<Rightarrow> float64 \<Rightarrow> bool" where
  "less_than a NegInf = False"
| "less_than a (Num r) = (a < r)"
| "less_than a PosInf = True"

section \<open>TradingEngine: price levels and taps\<close>

record price_level =
  level_id :: nat
  price :: real
  label :: string
  color :: string
  enabled :: bool
  triggered :: bool

text \<open>A value of the dictionary \<open>self.triggered_levels\<close>, keyed by level id.\<close>

record tap_info =
  tap_index :: nat
  tap_timestamp :: int
  tap_price :: real
  expected_fvg_type :: "fvg_type option"

type_synonym tap_states = "nat \<rightharpoonup> tap_info"

text \<open>An element of the list \<open>check_price_tap\<close> returns.\<close>

record triggered_info =
  level :: price_level
  candle_index :: nat
  tapped_timestamp :: int
  candle_open :: real
  candle_close :: real
  candle_high :: real
  candle_low :: real
  tapped_expected_fvg_type :: "fvg_type option"

definition get_current_price :: "candle list \<Rightarrow> real option" where
  "get_current_price df =
     (if df = [] \<or> length df < 2 then None
      else Some (close_price (df ! (length df - 2))))"

definition determine_fvg_type :: "real \<Rightarrow> real \<Rightarrow> fvg_type option" where
  "determine_fvg_type price_level current_price =
     (if greater_than price_level (fmul current_price (round_double 1.001)) then Some Bearish
      else if less_than price_level (fmul current_price (round_double 0.999)) then Some Bullish
      else None)"

text \<open>
  The inner loop \<open>for idx, row in df_completed.iterrows()\<close> with its \<open>break\<close>: the first
  row whose range contains the price, with its index.
\<close>

fun scan_candles :: "real \<Rightarrow> nat \<Rightarrow> candle list \<Rightarrow> (nat \<times> candle) option" where
  "scan_candles p idx [] = None"
| "scan_candles p idx (row # rows) =
     (if low row \<le> p \<and> p \<le> high row then Some (idx, row)
      else scan_candles p (Suc idx) rows)"

text \<open>
  The outer loop \<open>for level in price_levels\<close>, carrying the list built so far and the
  dictionary \<open>self.triggered_levels\<close>.
\<close>

fun tap_loop ::
  "candle list \<Rightarrow> real \<Rightarrow> price_level list \<Rightarrow> triggered_info list \<times> tap_states \<Rightarrow>
   triggered_info list \<times> tap_states" where
  "tap_loop df_completed current_price [] (acc, tls) = (acc, tls)"
| "tap_loop df_completed current_price (lv # rest) (acc, tls) =
     (if \<not> enabled lv \<or> triggered lv then tap_loop df_completed current_price rest (acc, tls)
      else if level_id lv \<in> dom tls then tap_loop df_completed current_price rest (acc, tls)
      else
        let expected = determine_fvg_type (price lv) current_price in
        (case scan_candles (price lv) 0 df_completed of
           None \<Rightarrow> tap_loop df_completed current_price rest (acc, tls)
         | Some (idx, row) \<Rightarrow>
             tap_loop df_completed current_price rest
               (acc @ [\<lparr>level = lv, candle_index = idx, tapped_timestamp = timestamp row,
                         candle_open = open_price row, candle_close = close_price row,
                         candle_high = high row, candle_low = low row,
                         tapped_expected_fvg_type = expected\<rparr>],
                tls(level_id lv \<mapsto>
                      \<lparr>tap_index = idx, tap_timestamp = timestamp row,
                       tap_price = price lv, expected_fvg_type = expected\<rparr>))))"

definition check_price_tap ::
  "tap_states \<Rightarrow> candle list \<Rightarrow> price_level list \<Rightarrow> real \<Rightarrow> triggered_info list \<times> tap_states" where
  "check_price_tap tls df price_levels current_price =
     (if df = [] \<or> price_levels = [] then ([], tls)
      else
        let df_completed = (if length df > 1 then butlast df else df) in
        tap_loop df_completed current_price price_levels ([], tls))"

definition check_fvg_after_tap :: "candle list \<Rightarrow> int \<Rightarrow> fvg_type option \<Rightarrow> fvg option" where
  "check_fvg_after_tap fvg_df tap_ts expected =
     (if fvg_df = [] then None
      else
        let post_tap_df = filter (\<lambda>c. timestamp c > tap_ts) fvg_df in
        if length post_tap_df < 4 then None
        else (case detect_fvg post_tap_df expected 2 of
                [] \<Rightarrow> None
              | f # _ \<Rightarrow> Some f))"

section \<open>TradingEngine.check_fvg_signals\<close>

text \<open>
  The dictionary \<open>signal_data\<close>. \<open>expected_type\<close> is \<open>expected_fvg_type or 'Any'\<close>:
  \<open>None\<close> stands for the string \<open>'Any'\<close>. The key \<open>signal_id\<close> is added once
  \<open>save_signal\<close> has returned; until then the field is 0.
\<close>

record signal =
  symbol :: string
  price_timeframe :: string
  fvg_timeframe :: string
  signal_price_level :: real
  trigger_price :: real
  signal_tap_timestamp :: int
  signal_fvg_type :: fvg_type
  signal_fvg_timestamp :: int
  signal_fvg_low :: real
  signal_fvg_high :: real
  signal_gap_size :: real
  expected_type :: "fvg_type option"
  notified :: bool
  signal_id :: nat

text \<open>
  The collaborators the engine calls: the table \<open>signals_history\<close> (\<open>save_signal\<close>
  inserts a row and returns its row id), the \<open>triggered\<close> column of the stored levels
  (\<open>update_price_level_triggered\<close>), the stored webhook of a user (\<open>decrypt_webhook\<close>)
  and the notifications sent. None of them changes the list \<open>price_levels\<close> the caller
  passed.
\<close>

record world =
  signals_history :: "signal list"
  stored_triggered :: "nat \<rightharpoonup> bool"
  webhook :: "nat \<Rightarrow> string option"
  sent :: "signal list"

record engine =
  triggered_levels :: tap_states
  outside :: world

text \<open>
  The block after \<open>if fvg:\<close>, the same in both loops but for the trigger price: build
  \<open>signal_data\<close>, save it, mark the stored level, notify when a webhook is set.
\<close>

definition fire_signal ::
  "world \<Rightarrow> nat \<Rightarrow> string \<Rightarrow> string \<Rightarrow> string \<Rightarrow> price_level \<Rightarrow> real \<Rightarrow> int \<Rightarrow>
   fvg_type option \<Rightarrow> fvg \<Rightarrow> signal \<times> world" where
  "fire_signal w user_id smb ptf ftf lv trig tap_ts expected g =
     (let signal_data =
            \<lparr>symbol = smb, price_timeframe = ptf, fvg_timeframe = ftf,
             signal_price_level = price lv, trigger_price = trig,
             signal_tap_timestamp = tap_ts, signal_fvg_type = fvg_kind g,
             signal_fvg_timestamp = fvg_timestamp g, signal_fvg_low = fvg_low g,
             signal_fvg_high = fvg_high g, signal_gap_size = gap_size g,
             expected_type = expected, notified = False, signal_id = 0\<rparr>;
          w1 = w\<lparr>signals_history := signals_history w @ [signal_data]\<rparr>;
          signal_data = signal_data\<lparr>signal_id := length (signals_history w1)\<rparr>;
          w2 = w1\<lparr>stored_triggered := (stored_triggered w1)(level_id lv \<mapsto> True)\<rparr>
      in (case webhook w2 user_id of
            None \<Rightarrow> (signal_data, w2)
          | Some url \<Rightarrow>
              (if url = [] then (signal_data, w2)
               else (signal_data\<lparr>notified := True\<rparr>, w2\<lparr>sent := sent w2 @ [signal_data]\<rparr>))))"

text \<open>The loop \<open>for tapped in newly_tapped\<close>.\<close>

fun new_tap_loop ::
  "candle list \<Rightarrow> nat \<Rightarrow> string \<Rightarrow> string \<Rightarrow> string \<Rightarrow> triggered_info list \<Rightarrow>
   signal list \<times> world \<Rightarrow> signal list \<times> world" where
  "new_tap_loop fvg_df user_id smb ptf ftf [] (signals, w) = (signals, w)"
| "new_tap_loop fvg_df user_id smb ptf ftf (tapped # rest) (signals, w) =
     (case check_fvg_after_tap fvg_df (tapped_timestamp tapped) (tapped_expected_fvg_type tapped) of
        None \<Rightarrow> new_tap_loop fvg_df user_id smb ptf ftf rest (signals, w)
      | Some g \<Rightarrow>
          (let (signal_data, w') =
                 fire_signal w user_id smb ptf ftf (level tapped) (candle_close tapped)
                   (tapped_timestamp tapped) (tapped_expected_fvg_type tapped) g
           in new_tap_loop fvg_df user_id smb ptf ftf rest (signals @ [signal_data], w')))"

text \<open>The loop \<open>for level in price_levels\<close> over the previously tapped levels.\<close>

fun prev_tap_loop ::
  "candle list \<Rightarrow> nat \<Rightarrow> string \<Rightarrow> string \<Rightarrow> string \<Rightarrow> price_level list \<Rightarrow>
   signal list \<times> world \<times> tap_states \<Rightarrow> signal list \<times> world \<times> tap_states" where
  "prev_tap_loop fvg_df user_id smb ptf ftf [] (signals, w, tls) = (signals, w, tls)"
| "prev_tap_loop fvg_df user_id smb ptf ftf (lv # rest) (signals, w, tls) =
     (if triggered lv then prev_tap_loop fvg_df user_id smb ptf ftf rest (signals, w, tls)
      else
        (case tls (level_id lv) of
           None \<Rightarrow> prev_tap_loop fvg_df user_id smb ptf ftf rest (signals, w, tls)
         | Some tap \<Rightarrow>
             (case check_fvg_after_tap fvg_df (tap_timestamp tap) (expected_fvg_type tap) of
                None \<Rightarrow> prev_tap_loop fvg_df user_id smb ptf ftf rest (signals, w, tls)
              | Some g \<Rightarrow>
                  (let (signal_data, w') =
                         fire_signal w user_id smb ptf ftf lv (tap_price tap)
                           (tap_timestamp tap) (expected_fvg_type tap) g
                   in prev_tap_loop fvg_df user_id smb ptf ftf rest
                        (signals @ [signal_data], w', tls(level_id lv := None))))))"

definition check_fvg_signals ::
  "engine \<Rightarrow> candle list \<Rightarrow> candle list \<Rightarrow> price_level list \<Rightarrow> nat \<Rightarrow> string \<Rightarrow> string \<Rightarrow> string \<Rightarrow>
   signal list \<times> engine" where
  "check_fvg_signals self price_df fvg_df price_levels user_id smb ptf ftf =
     (if price_df = [] \<or> fvg_df = [] \<or> price_levels = [] then ([], self)
      else
        (case get_current_price price_df of
           None \<Rightarrow> ([], self)
         | Some current_price \<Rightarrow>
             (let (newly_tapped, tls1) =
                    check_price_tap (triggered_levels self) price_df price_levels current_price;
                  (signals1, w1) =
                    new_tap_loop fvg_df user_id smb ptf ftf newly_tapped ([], outside self);
                  (signals2, w2, tls2) =
                    prev_tap_loop fvg_df user_id smb ptf ftf price_levels (signals1, w1, tls1)
              in (signals2, \<lparr>triggered_levels = tls2, outside = w2\<rparr>))))"

section \<open>IndicatorEngine.check_alert_conditions\<close>

text \<open>
  The output of an indicator is a pandas Series (its values in order) or a DataFrame: its
  column names in order, its number of rows, and the value of each column at each row.
\<close>

record frame =
  columns :: "string list"
  nrows :: nat
  cell :: "string \<Rightarrow> nat \<Rightarrow> real"

datatype indicator_data = Series "real list" | DataFrame frame

text \<open>
  The dictionary \<open>alert_config\<close>: each key is present (\<open>Some\<close>) or absent (\<open>None\<close>), and
  \<open>.get(key, default)\<close> reads it. The keys are \<open>type\<close>, \<open>condition\<close>, \<open>value\<close>,
  \<open>line\<close> and \<open>compare_with\<close>.
\<close>

record alert_config =
  cfg_type :: "string option"
  cfg_condition :: "string option"
  cfg_value :: "real option"
  cfg_line :: "string option"
  cfg_compare_with :: "string option"

text \<open>The details dictionary returned beside the flag, by the keys it holds.\<close>

datatype details =
    CurrentThreshold real real
  | CurrentPreviousThreshold real real real
  | MainCompare real real

datatype py_error = KeyError string

definition is_empty :: "indicator_data \<Rightarrow> bool" where
  "is_empty d = (case d of Series xs \<Rightarrow> xs = [] | DataFrame f \<Rightarrow> columns f = [] \<or> nrows f = 0)"

text \<open>
  \<open>indicator_data[name]\<close> on a DataFrame: the column as a list, \<open>KeyError\<close> when there is
  no such column.
\<close>

definition column :: "frame \<Rightarrow> string \<Rightarrow> py_error + real list" where
  "column f name =
     (if name \<in> set (columns f) then Inr (map (cell f name) [0 ..< nrows f])
      else Inl (KeyError name))"

text \<open>\<open>s.iloc[-1]\<close> and \<open>s.iloc[-2] if len(s) > 1 else None\<close> of a non-empty series.\<close>

definition last_two :: "real list \<Rightarrow> real \<times> real option" where
  "last_two xs = (last xs, if length xs > 1 then Some (xs ! (length xs - 2)) else None)"

text \<open>The block "Get last two values (current and previous)".\<close>

definition current_previous :: "indicator_data \<Rightarrow> alert_config \<Rightarrow> py_error + real \<times> real option" where
  "current_previous d cfg =
     (case d of
        DataFrame f \<Rightarrow>
          (let main_line = (case cfg_line cfg of None \<Rightarrow> hd (columns f) | Some l \<Rightarrow> l) in
           case column f main_line of
             Inl e \<Rightarrow> Inl e
           | Inr xs \<Rightarrow> Inr (last_two xs))
      | Series xs \<Rightarrow> Inr (last_two xs))"

text \<open>The branch \<open>alert_type == 'compare' and isinstance(indicator_data, pd.DataFrame)\<close>.\<close>

definition compare_branch ::
  "frame \<Rightarrow> alert_config \<Rightarrow> string \<Rightarrow> real \<Rightarrow> real option \<Rightarrow> bool \<times> details option" where
  "compare_branch f cfg cond current previous =
     (case cfg_compare_with cfg of
        None \<Rightarrow> (False, None)
      | Some compare_line \<Rightarrow>
          (if compare_line \<noteq> [] \<and> compare_line \<in> set (columns f) then
             (let (compare_current, compare_previous) =
                    last_two (map (cell f compare_line) [0 ..< nrows f])
              in case (previous, compare_previous) of
                   (Some prev, Some cprev) \<Rightarrow>
                     (if cond = ''crosses_above'' then
                        (prev \<le> cprev \<and> current > compare_current,
                         Some (MainCompare current compare_current))
                      else if cond = ''crosses_below'' then
                        (prev \<ge> cprev \<and> current < compare_current,
                         Some (MainCompare current compare_current))
                      else (False, None))
                 | _ \<Rightarrow> (False, None))
           else (False, None)))"

text \<open>
  \<open>alert_config.get('type', 'value')\<close>, \<open>alert_config.get('condition', 'above')\<close> and
  \<open>alert_config.get('value', 0)\<close>.
\<close>

definition alert_type_of :: "alert_config \<Rightarrow> string" where
  "alert_type_of cfg = (case cfg_type cfg of None \<Rightarrow> ''value'' | Some t \<Rightarrow> t)"

definition condition_of :: "alert_config \<Rightarrow> string" where
  "condition_of cfg = (case cfg_condition cfg of None \<Rightarrow> ''above'' | Some c \<Rightarrow> c)"

definition threshold_of :: "alert_config \<Rightarrow> real" where
  "threshold_of cfg = (case cfg_value cfg of None \<Rightarrow> 0 | Some v \<Rightarrow> v)"

definition check_alert_conditions ::
  "indicator_data option \<Rightarrow> alert_config \<Rightarrow> py_error + bool \<times> details option" where
  "check_alert_conditions indicator_data cfg =
     (case indicator_data of
        None \<Rightarrow> Inr (False, None)
      | Some d \<Rightarrow>
          (if is_empty d then Inr (False, None)
           else
             let alert_type = alert_type_of cfg;
                 cond = condition_of cfg;
                 threshold = threshold_of cfg
             in case current_previous d cfg of
                  Inl e \<Rightarrow> Inl e
                | Inr (current, previous) \<Rightarrow>
                    (if alert_type = ''value'' then
                       (if cond = ''above'' then
                          Inr (current > threshold, Some (CurrentThreshold current threshold))
                        else if cond = ''below'' then
                          Inr (current < threshold, Some (CurrentThreshold current threshold))
                        else if cond = ''equals'' then
                          Inr (\<bar>current - threshold\<bar> < 0.01, Some (CurrentThreshold current threshold))
                        else Inr (False, None))
                     else if alert_type = ''crossover'' \<and> previous \<noteq> None then
                       (if cond = ''crosses_above'' then
                          Inr (the previous \<le> threshold \<and> threshold < current,
                               Some (CurrentPreviousThreshold current (the previous) threshold))
                        else if cond = ''crosses_below'' then
                          Inr (the previous \<ge> threshold \<and> threshold > current,
                               Some (CurrentPreviousThreshold current (the previous) threshold))
                        else Inr (False, None))
                     else if alert_type = ''compare'' then
                       (case d of
                          DataFrame f \<Rightarrow> Inr (compare_branch f cfg cond current previous)
                        | Series _ \<Rightarrow> Inr (False, None))
                     else Inr (False, None))))"

text \<open>
  The types and conditions \<open>check_alert_conditions\<close> has a branch for.
\<close>

definition known_type :: "string \<Rightarrow> bool" where
  "known_type t = (t = ''value'' \<or> t = ''crossover'' \<or> t = ''compare'')"

definition known_condition :: "string \<Rightarrow> string \<Rightarrow> bool" where
  "known_condition t c =
     (if t = ''value'' then c = ''above'' \<or> c = ''below'' \<or> c = ''equals''
      else if t = ''crossover'' \<or> t = ''compare'' then c = ''crosses_above'' \<or> c = ''crosses_below''
      else False)"

text \<open>The line \<open>check_alert_conditions\<close> reads of a DataFrame is one of its columns.\<close>

definition line_present :: "indicator_data \<Rightarrow> alert_config \<Rightarrow> bool" where
  "line_present d cfg =
     (case d of
        Series _ \<Rightarrow> True
      | DataFrame f \<Rightarrow> (case cfg_line cfg of None \<Rightarrow> True | Some l \<Rightarrow> l \<in> set (columns f)))"

section \<open>IndicatorEngine.execute_indicator\<close>








section \<open>Predicates used in the statements\<close>

text \<open>
  A returned tap, and a stored tap state, was taken from a row of the given (completed)
  candles: its index is in range and its timestamp is that row's; for the returned tap the
  row's range contains the level's price.
\<close>

definition tapped_on :: "candle list \<Rightarrow> triggered_info \<Rightarrow> bool" where
  "tapped_on dfc t =
     (candle_index t < length dfc \<and>
      tapped_timestamp t = timestamp (dfc ! candle_index t) \<and>
      low (dfc ! candle_index t) \<le> price (level t) \<and>
      price (level t) \<le> high (dfc ! candle_index t))"

definition state_on :: "candle list \<Rightarrow> tap_info \<Rightarrow> bool" where
  "state_on dfc ti =
     (tap_index ti < length dfc \<and> tap_timestamp ti = timestamp (dfc ! tap_index ti))"

text \<open>
  A signal carries the gap \<open>check_fvg_after_tap\<close> returns for its tap timestamp and its
  expected direction.
\<close>

definition confirmed_by :: "candle list \<Rightarrow> signal \<Rightarrow> fvg \<Rightarrow> bool" where
  "confirmed_by fvg_df s g =
     (check_fvg_after_tap fvg_df (signal_tap_timestamp s) (expected_type s) = Some g \<and>
      signal_fvg_type s = fvg_kind g \<and> signal_fvg_timestamp s = fvg_timestamp g \<and>
      signal_fvg_low s = fvg_low g \<and> signal_fvg_high s = fvg_high g \<and>
      signal_gap_size s = gap_size g)"

text \<open>
  A signal is the one built for a tap timestamp, an expected direction and a gap: it has
  that timestamp and direction and the gap's type, timestamp, bounds and size.
\<close>

definition carries :: "signal \<Rightarrow> int \<Rightarrow> fvg_type option \<Rightarrow> fvg \<Rightarrow> bool" where
  "carries s tap_ts expected g =
     (signal_tap_timestamp s = tap_ts \<and> expected_type s = expected \<and>
      signal_fvg_type s = fvg_kind g \<and> signal_fvg_timestamp s = fvg_timestamp g \<and>
      signal_fvg_low s = fvg_low g \<and> signal_fvg_high s = fvg_high g \<and>
      signal_gap_size s = gap_size g)"

section \<open>Concrete inputs\<close>

text \<open>A candle from its timestamp, open, high, low and close (volume 1).\<close>

definition ohlc :: "int \<Rightarrow> real \<Rightarrow> real \<Rightarrow> real \<Rightarrow> real \<Rightarrow> candle" where
  "ohlc t opn h l c =
     \<lparr>timestamp = t, open_price = opn, high = h, low = l, close_price = c, volume = 1\<rparr>"

text \<open>
  Three completed candles with highs and lows 100/98, 99/95 and 105/103, and the live candle.
\<close>

definition scenario_candles :: "candle list" where
  "scenario_candles =
     [ohlc 1 99 100 98 99, ohlc 2 98 99 95 96, ohlc 3 103 105 103 104, ohlc 4 104 106 104 105]"

text \<open>A series whose first candle has its low above its high.\<close>

definition crossed_candles :: "candle list" where
  "crossed_candles =
     [ohlc 1 3 1 5 3, ohlc 2 3 4 2 3, ohlc 3 3 4 2 3, ohlc 4 3 4 2 3]"

text \<open>
  A one-column frame of two rows, and a configuration of an unknown type that names a line
  the frame does not have.
\<close>

definition macd_frame :: frame where
  "macd_frame = \<lparr>columns = [''macd''], nrows = 2, cell = (\<lambda>c r. 0)\<rparr>"

definition bogus_config :: alert_config where
  "bogus_config =
     \<lparr>cfg_type = Some ''bogus'', cfg_condition = Some ''above'', cfg_value = None,
      cfg_line = Some ''nope'', cfg_compare_with = None\<rparr>"

text \<open>A crossover configuration with threshold 50.\<close>

definition crossover_config :: "string \<Rightarrow> alert_config" where
  "crossover_config c =
     \<lparr>cfg_type = Some ''crossover'', cfg_condition = Some c, cfg_value = Some 50,
      cfg_line = None, cfg_compare_with = None\<rparr>"

text \<open>A series of one candle, a level at 101, and a series of one completed and one live candle.\<close>

definition lone_candle :: "candle list" where
  "lone_candle = [ohlc 1 100 102 99 101]"

definition level_101 :: price_level where
  "level_101 = \<lparr>level_id = 1, price = 101, label = ''L1'', color = ''#2962FF'',
                 enabled = True, triggered = False\<rparr>"

definition tapping_candles :: "candle list" where
  "tapping_candles = [ohlc 0 100 102 99 102, ohlc 5 102 103 101 102]"




text \<open>
  An engine that has seen nothing yet: no tap state, nothing stored, no webhook.
\<close>

definition engine0 :: engine where
  "engine0 =
     \<lparr>triggered_levels = Map.empty,
      outside = \<lparr>signals_history = [], stored_triggered = Map.empty,
                 webhook = (\<lambda>u. None), sent = []\<rparr>\<rparr>"

text \<open>
  A confirmation series of eight completed candles and the live one: a Bullish gap forms
  at the candle of timestamp 3, and two more at those of timestamps 6 and 7. And an
  engine that holds a tap of level 1 at timestamp 3, expecting Bullish.
\<close>

definition late_candles :: "candle list" where
  "late_candles =
     [ohlc 1 99 100 98 99, ohlc 2 98 99 95 96, ohlc 3 103 105 103 104,
      ohlc 4 109 110 108 109, ohlc 5 110 112 109 111, ohlc 6 112 115 111 114,
      ohlc 7 115 118 114 117, ohlc 8 117 119 113 118, ohlc 9 118 120 114 119]"

definition engine_tapped :: engine where
  "engine_tapped =
     \<lparr>triggered_levels =
        [1 \<mapsto> \<lparr>tap_index = 0, tap_timestamp = 3, tap_price = 101,
                 expected_fvg_type = Some Bullish\<rparr>],
      outside = \<lparr>signals_history = [], stored_triggered = Map.empty,
                 webhook = (\<lambda>u. None), sent = []\<rparr>\<rparr>"

section \<open>Facts about the definitions\<close>

subsection \<open>Facts about the loop\<close>

lemma fvg_at_index: "f \<in> set (fvg_at dfc flt i) \<Longrightarrow> fvg_index f = i"
  by (auto simp: fvg_at_def split: if_splits)


lemma set_fvg_loop: "set (fvg_loop dfc flt is) = (\<Union>i\<in>set is. set (fvg_at dfc flt i))"
  by (induction "is") auto

lemma fvg_loop_append:
  "fvg_loop dfc flt (is @ js) = fvg_loop dfc flt is @ fvg_loop dfc flt js"
  by (induction "is") auto

lemma fvg_loop_sorted:
  "sorted_wrt (<) is \<Longrightarrow> sorted_wrt (<) (map fvg_index (fvg_loop cs flt is))"
proof (induction "is")
  case Nil
  then show ?case by simp
next
  case (Cons i "is")
  have a: "sorted_wrt (<) (map fvg_index (fvg_at cs flt i))"
    by (simp add: fvg_at_def)
  have b: "\<forall>x\<in>set (fvg_at cs flt i). \<forall>y\<in>set (fvg_loop cs flt is). fvg_index x < fvg_index y"
    using Cons.prems by (auto simp: set_fvg_loop dest!: fvg_at_index)
  show ?case using Cons a b by (simp add: sorted_wrt_append)
qed

lemma filter_cases: "flt = None \<or> flt = Some Bullish \<or> flt = Some Bearish"
  by (cases flt) (auto intro: fvg_type.exhaust)

text \<open>On well-formed candles the two tests of the loop body exclude each other.\<close>

lemma fvg_at_spec:
  "well_formed (cs ! (i - 2)) \<Longrightarrow> well_formed (cs ! i) \<Longrightarrow> fvg_at cs flt i = spec_gaps_at cs flt i"
  using filter_cases[of flt]
  by (auto simp: fvg_at_def spec_gaps_at_def bullish_gap_def bearish_gap_def well_formed_def)

lemma fvg_loop_spec:
  "\<forall>c\<in>set cs. well_formed c \<Longrightarrow> \<forall>i\<in>set is. i < length cs \<Longrightarrow>
   fvg_loop cs flt is = concat (map (spec_gaps_at cs flt) is)"
proof (induction "is")
  case Nil
  then show ?case by simp
next
  case (Cons i "is")
  have "i < length cs" using Cons.prems by simp
  then have "well_formed (cs ! i)" "well_formed (cs ! (i - 2))"
    using Cons.prems(1) by (auto simp: less_imp_diff_less)
  then show ?case using Cons by (simp add: fvg_at_spec)
qed

lemma scenario_detect:
  "detect_fvg scenario_candles None 0 = [bullish_gap (butlast scenario_candles) 2]"
  by (simp add: detect_fvg_def scenario_candles_def ohlc_def fvg_at_def bullish_gap_def upt_rec)

subsection \<open>Facts about rounding\<close>

lemma round_half_even_error: "\<bar>of_int (round_half_even r) - r\<bar> \<le> 1 / 2"
  unfolding round_half_even_def Let_def by (auto simp: abs_if) linarith+

lemma ulp_pos: "0 < ulp x"
  by (simp add: ulp_def)

lemma round_double_error: "\<bar>round_double x - x\<bar> \<le> ulp x / 2"
proof (cases "x = 0")
  case True
  then show ?thesis using ulp_pos[of x] by (simp add: round_double_def)
next
  case False
  have "round_double x - x = (of_int (round_half_even (x / ulp x)) - x / ulp x) * ulp x"
    using False ulp_pos[of x] by (simp add: round_double_def left_diff_distrib)
  then have "\<bar>round_double x - x\<bar> = \<bar>of_int (round_half_even (x / ulp x)) - x / ulp x\<bar> * ulp x"
    using ulp_pos[of x] by (simp add: abs_mult)
  also have "\<dots> \<le> (1 / 2) * ulp x"
    by (rule mult_right_mono[OF round_half_even_error]) (use ulp_pos[of x] in simp)
  finally show ?thesis by simp
qed

lemma binade_normal:
  assumes "2 powr (- 1022) \<le> \<bar>x\<bar>"
  shows "binade x = \<lfloor>log 2 \<bar>x\<bar>\<rfloor>" and "2 powr of_int (binade x) \<le> \<bar>x\<bar>"
proof -
  have "(0::real) < 2 powr (- 1022)" by simp
  then have pos: "0 < \<bar>x\<bar>" using assms by linarith
  have "- 1022 \<le> log 2 \<bar>x\<bar>"
    using assms pos by (simp add: le_log_iff)
  then have "- 1022 \<le> \<lfloor>log 2 \<bar>x\<bar>\<rfloor>" by (simp add: le_floor_iff)
  then show b: "binade x = \<lfloor>log 2 \<bar>x\<bar>\<rfloor>" by (simp add: binade_def)
  have "2 powr of_int \<lfloor>log 2 \<bar>x\<bar>\<rfloor> \<le> 2 powr (log 2 \<bar>x\<bar>)"
    by (rule powr_mono) simp_all
  also have "\<dots> = \<bar>x\<bar>" using pos by simp
  finally have "2 powr of_int \<lfloor>log 2 \<bar>x\<bar>\<rfloor> \<le> \<bar>x\<bar>" .
  then show "2 powr of_int (binade x) \<le> \<bar>x\<bar>" by (simp add: b)
qed

lemma round_double_relative:
  assumes "2 powr (- 1022) \<le> \<bar>x\<bar>"
  shows "\<bar>round_double x - x\<bar> \<le> \<bar>x\<bar> / 2 ^ 53"
proof -
  have "ulp x = 2 powr of_int (binade x) / 2 ^ 52"
    by (simp add: ulp_def powr_diff)
  also have "\<dots> \<le> \<bar>x\<bar> / 2 ^ 52"
    using binade_normal(2)[OF assms] by (simp add: divide_right_mono)
  finally have "ulp x / 2 \<le> \<bar>x\<bar> / 2 ^ 53" by simp
  then show ?thesis using round_double_error[of x] by linarith
qed

lemma binade_eq:
  assumes "2 powr of_int k \<le> \<bar>x\<bar>" and "\<bar>x\<bar> < 2 powr of_int (k + 1)" and "- 1022 \<le> k"
  shows "binade x = k"
proof -
  have "(0::real) < 2 powr of_int k" by simp
  then have pos: "0 < \<bar>x\<bar>" using assms(1) by linarith
  have "\<lfloor>log 2 \<bar>x\<bar>\<rfloor> = k"
    using assms(1,2) pos by (simp add: floor_log_eq_powr_iff)
  then show ?thesis using assms(3) by (simp add: binade_def)
qed

lemma round_double_eval:
  assumes "2 powr of_int k \<le> \<bar>x\<bar>" and "\<bar>x\<bar> < 2 powr of_int (k + 1)" and "- 1022 \<le> k"
  shows "round_double x = of_int (round_half_even (x / 2 powr of_int (k - 52))) * 2 powr of_int (k - 52)"
proof -
  have "(0::real) < 2 powr of_int k" by simp
  then have "x \<noteq> 0" using assms(1) by auto
  then show ?thesis
    by (simp add: round_double_def ulp_def binade_eq[OF assms])
qed

lemma literal_1001: "round_double 1.001 = 4508103226997866 / 2 ^ 52"
  using round_double_eval[of 0 "1.001"]
  by (simp add: round_half_even_def powr_neg_numeral)

lemma product_1000: "round_double (1000 * (4508103226997866 / 2 ^ 52)) = 8804889115230207 / 2 ^ 43"
  using round_double_eval[of 9 "1000 * (4508103226997866 / 2 ^ 52)"]
  by (simp add: round_half_even_def powr_neg_numeral)

lemma fmul_1000: "fmul 1000 (round_double 1.001) = Num (8804889115230207 / 2 ^ 43)"
  unfolding fmul_def literal_1001 product_1000 Let_def by simp

lemma determine_1001_1000: "determine_fvg_type 1001 1000 = Some Bearish"
  unfolding determine_fvg_type_def fmul_1000 by simp

lemma normal_rangeD:
  assumes "in_normal_range c"
  shows "0 < c" and "2 powr (- 1022) \<le> c / 4" and "c * 4 \<le> 2 ^ 1024"
proof -
  have a: "1 / 2 ^ 1020 \<le> c" and b: "c \<le> 2 ^ 1022"
    using assms by (simp_all add: in_normal_range_def)
  have "(0::real) < 1 / 2 ^ 1020" by simp
  then show "0 < c" using a by linarith
  have "(2::real) powr (- 1022) = 1 / 2 ^ 1022" by (simp add: powr_neg_numeral)
  also have "\<dots> = (1 / 2 ^ 1020) / 4" by simp
  also have "\<dots> \<le> c / 4" using a by (simp add: divide_right_mono)
  finally show "2 powr (- 1022) \<le> c / 4" .
  have "c * 4 \<le> 2 ^ 1022 * 4" using b by simp
  then show "c * 4 \<le> 2 ^ 1024" by simp
qed

text \<open>
  The product of a price in the normal range with a literal between 1/2 and 2, as the
  code computes it: finite, and within one part in \<open>10^15\<close> of the exact product.
\<close>

lemma rounded_product:
  assumes "in_normal_range cp" and "1 / 2 \<le> c" and "c \<le> 2"
  shows "fmul cp (round_double c) = Num (round_double (cp * round_double c))"
    and "\<bar>round_double (cp * round_double c) - cp * c\<bar> \<le> cp * c / 10 ^ 15"
proof -
  define d :: real where "d = 1 / 2 ^ 53"
  define a where "a = round_double c"
  define x where "x = cp * a"
  define p where "p = round_double x"
  define t where "t = cp * c"
  note r = normal_rangeD[OF assms(1)]
  have d: "0 < d" "d \<le> 1 / 10 ^ 15" by (simp_all add: d_def)
  have tpos: "0 < t" using r(1) assms(2) by (simp add: t_def)
  have "(2::real) powr (- 1022) \<le> 1 / 2" by (simp add: powr_neg_numeral)
  then have "2 powr (- 1022) \<le> \<bar>c\<bar>" using assms(2) by linarith
  from round_double_relative[OF this] have ac: "\<bar>a - c\<bar> \<le> c * d"
    using assms(2) by (simp add: a_def d_def)
  have "x - t = cp * (a - c)" by (simp add: x_def t_def algebra_simps)
  then have "\<bar>x - t\<bar> = cp * \<bar>a - c\<bar>" using r(1) by (simp add: abs_mult)
  also have "\<dots> \<le> cp * (c * d)" using ac r(1) by (simp add: mult_left_mono)
  finally have xt: "\<bar>x - t\<bar> \<le> t * d" by (simp add: t_def)
  have tlow: "cp / 4 \<le> t / 2" using assms(2) r(1) by (simp add: t_def field_simps)
  have "t * d \<le> t * (1 / 2)"
    by (rule mult_left_mono) (use tpos d in simp_all)
  then have td: "t * d \<le> t / 2" by simp
  have "t / 2 \<le> x" using xt td by linarith
  then have xlow: "2 powr (- 1022) \<le> \<bar>x\<bar>" using tlow r(2) by linarith
  from round_double_relative[OF this] have px: "\<bar>p - x\<bar> \<le> \<bar>x\<bar> * d"
    by (simp add: p_def d_def)
  have xabs: "\<bar>x\<bar> \<le> t + t * d" using xt tpos by linarith
  have "\<bar>x\<bar> * d \<le> (t + t * d) * d" using xabs d(1) by (simp add: mult_right_mono)
  then have "\<bar>p - t\<bar> \<le> t * d + (t + t * d) * d" using px xt by linarith
  also have "\<dots> = t * (2 * d + d * d)" by (simp add: algebra_simps)
  also have "\<dots> \<le> t * (1 / 10 ^ 15)"
    by (rule mult_left_mono) (use tpos in \<open>simp_all add: d_def\<close>)
  finally have pt: "\<bar>p - t\<bar> \<le> t / 10 ^ 15" by simp
  then show "\<bar>round_double (cp * round_double c) - cp * c\<bar> \<le> cp * c / 10 ^ 15"
    by (simp add: p_def x_def a_def t_def)
  have pt': "\<bar>p - t\<bar> \<le> t / 1000000000000000" using pt by simp
  have "t \<le> cp * 2" using assms(3) r(1) by (simp add: t_def)
  then have "p < cp * 4" using pt' tpos by linarith
  then have hi: "p < 2 ^ 1024" using r(3) by linarith
  have "0 < p" using pt' tpos by linarith
  then have lo: "- (2 ^ 1024) < p" by (smt (verit) zero_less_power)
  show "fmul cp (round_double c) = Num (round_double (cp * round_double c))"
    using hi lo by (simp add: fmul_def p_def x_def a_def)
qed

lemma product_neg100:
  "round_double (- 100 * (4508103226997866 / 2 ^ 52)) = - 7043911292184166 / 2 ^ 46"
  using round_double_eval[of 6 "- 100 * (4508103226997866 / 2 ^ 52)"]
  by (simp add: round_half_even_def powr_neg_numeral)

lemma fmul_neg100: "fmul (- 100) (round_double 1.001) = Num (- 7043911292184166 / 2 ^ 46)"
  unfolding fmul_def literal_1001 product_neg100 Let_def by simp

lemma determine_neg100: "determine_fvg_type (- 100) (- 100) = Some Bearish"
  unfolding determine_fvg_type_def fmul_neg100 by simp

lemma two_sided:
  fixes p t :: real
  assumes "\<bar>p - t\<bar> \<le> t / 10 ^ 15"
  shows "t - t / 1000000000000000 \<le> p" and "p \<le> t + t / 1000000000000000"
proof -
  from assms have "p - t \<le> t / 10 ^ 15 \<and> - (p - t) \<le> t / 10 ^ 15"
    by (simp only: abs_le_iff)
  then show "t - t / 1000000000000000 \<le> p" and "p \<le> t + t / 1000000000000000"
    by simp_all
qed

text \<open>The policy on a close in the normal range, by its two rounded thresholds.\<close>

lemma policy_thresholds:
  assumes "in_normal_range cp"
  shows "determine_fvg_type lvl cp =
           (if lvl > round_double (cp * round_double 1.001) then Some Bearish
            else if lvl < round_double (cp * round_double 0.999) then Some Bullish
            else None)"
    and "\<bar>round_double (cp * round_double 1.001) - cp * 1.001\<bar> \<le> cp * 1.001 / 10 ^ 15"
    and "\<bar>round_double (cp * round_double 0.999) - cp * 0.999\<bar> \<le> cp * 0.999 / 10 ^ 15"
proof -
  have h: "fmul cp (round_double 1.001) = Num (round_double (cp * round_double 1.001))"
    by (rule rounded_product(1)[OF assms]) simp_all
  have l: "fmul cp (round_double 0.999) = Num (round_double (cp * round_double 0.999))"
    by (rule rounded_product(1)[OF assms]) simp_all
  show "determine_fvg_type lvl cp =
           (if lvl > round_double (cp * round_double 1.001) then Some Bearish
            else if lvl < round_double (cp * round_double 0.999) then Some Bullish
            else None)"
    unfolding determine_fvg_type_def h l by simp
  show "\<bar>round_double (cp * round_double 1.001) - cp * 1.001\<bar> \<le> cp * 1.001 / 10 ^ 15"
    by (rule rounded_product(2)[OF assms]) simp_all
  show "\<bar>round_double (cp * round_double 0.999) - cp * 0.999\<bar> \<le> cp * 0.999 / 10 ^ 15"
    by (rule rounded_product(2)[OF assms]) simp_all
qed

lemma policy_cases:
  assumes "in_normal_range cp"
  shows "lvl \<ge> cp * 1.0011 \<Longrightarrow> determine_fvg_type lvl cp = Some Bearish"
    and "lvl \<le> cp * 0.9989 \<Longrightarrow> determine_fvg_type lvl cp = Some Bullish"
    and "cp * 0.9991 \<le> lvl \<Longrightarrow> lvl \<le> cp * 1.0009 \<Longrightarrow> determine_fvg_type lvl cp = None"
proof -
  note t = policy_thresholds[OF assms]
  note hi = two_sided[OF t(2)] and lo = two_sided[OF t(3)]
  have pos: "0 < cp" using normal_rangeD(1)[OF assms] .
  show "lvl \<ge> cp * 1.0011 \<Longrightarrow> determine_fvg_type lvl cp = Some Bearish"
    unfolding t(1) using hi pos by simp
  show "lvl \<le> cp * 0.9989 \<Longrightarrow> determine_fvg_type lvl cp = Some Bullish"
    unfolding t(1) using hi lo pos by simp
  show "cp * 0.9991 \<le> lvl \<Longrightarrow> lvl \<le> cp * 1.0009 \<Longrightarrow> determine_fvg_type lvl cp = None"
    unfolding t(1) using hi lo pos by simp
qed

lemma normal_range_numeral: "in_normal_range 102" "in_normal_range 1000" "in_normal_range 95"
  by (simp_all add: in_normal_range_def)

lemma determine_101_102: "determine_fvg_type 101 102 = Some Bullish"
  by (rule policy_cases(2)[OF normal_range_numeral(1)]) simp

subsection \<open>Facts about tap detection\<close>

lemma scan_candles_Some:
  "scan_candles p k rows = Some (idx, row) \<Longrightarrow>
   k \<le> idx \<and> idx < k + length rows \<and> row = rows ! (idx - k) \<and> low row \<le> p \<and> p \<le> high row"
proof (induction rows arbitrary: k)
  case Nil
  then show ?case by simp
next
  case (Cons r rows)
  show ?case
  proof (cases "low r \<le> p \<and> p \<le> high r")
    case True
    then show ?thesis using Cons.prems by auto
  next
    case False
    then have "scan_candles p (Suc k) rows = Some (idx, row)"
      using Cons.prems by auto
    from Cons.IH[OF this] show ?thesis by (auto simp: Suc_diff_le)
  qed
qed

lemma tap_loop_inv:
  assumes "tap_loop dfc cp lvls (acc, tls) = (acc', tls')"
    and "\<forall>t\<in>set acc. tapped_on dfc t"
    and "\<forall>lid ti. tls lid = Some ti \<longrightarrow> tls0 lid = Some ti \<or> state_on dfc ti"
  shows "(\<forall>t\<in>set acc'. tapped_on dfc t) \<and>
         (\<forall>lid ti. tls' lid = Some ti \<longrightarrow> tls0 lid = Some ti \<or> state_on dfc ti)"
  using assms
proof (induction lvls arbitrary: acc tls)
  case Nil
  then show ?case by simp
next
  case (Cons lv lvls)
  show ?case
  proof (cases "\<not> enabled lv \<or> triggered lv \<or> level_id lv \<in> dom tls \<or>
                scan_candles (price lv) 0 dfc = None")
    case True
    then have "tap_loop dfc cp lvls (acc, tls) = (acc', tls')"
      using Cons.prems(1) by (auto simp: Let_def split: if_splits)
    from Cons.IH[OF this Cons.prems(2,3)] show ?thesis .
  next
    case False
    then obtain idx row where sc: "scan_candles (price lv) 0 dfc = Some (idx, row)"
      by auto
    let ?t = "\<lparr>level = lv, candle_index = idx, tapped_timestamp = timestamp row,
               candle_open = open_price row, candle_close = close_price row,
               candle_high = high row, candle_low = low row,
               tapped_expected_fvg_type = determine_fvg_type (price lv) cp\<rparr>"
    let ?ti = "\<lparr>tap_index = idx, tap_timestamp = timestamp row, tap_price = price lv,
                expected_fvg_type = determine_fvg_type (price lv) cp\<rparr>"
    have step: "tap_loop dfc cp lvls (acc @ [?t], tls(level_id lv \<mapsto> ?ti)) = (acc', tls')"
      using Cons.prems(1) False sc by (simp add: Let_def)
    from scan_candles_Some[OF sc] have t: "tapped_on dfc ?t" and ti: "state_on dfc ?ti"
      by (auto simp: tapped_on_def state_on_def)
    have a: "\<forall>t\<in>set (acc @ [?t]). tapped_on dfc t"
      using Cons.prems(2) t by simp
    have b: "\<forall>lid ti. (tls(level_id lv \<mapsto> ?ti)) lid = Some ti \<longrightarrow>
               tls0 lid = Some ti \<or> state_on dfc ti"
      using Cons.prems(3) ti by auto
    from Cons.IH[OF step a b] show ?thesis .
  qed
qed

subsection \<open>Facts about the alert check\<close>

lemma compare_branch_unknown:
  "c \<noteq> ''crosses_above'' \<Longrightarrow> c \<noteq> ''crosses_below'' \<Longrightarrow> compare_branch f cfg c cur prev = (False, None)"
  by (simp add: compare_branch_def split: option.split prod.split)

lemma current_previous_ok:
  "line_present d cfg \<Longrightarrow> \<not> is_empty d \<Longrightarrow> \<exists>cur prev. current_previous d cfg = Inr (cur, prev)"
  by (cases d) (auto simp: line_present_def is_empty_def current_previous_def column_def last_two_def
      Let_def split: option.splits)

lemma check_alert_unfold:
  assumes "\<not> is_empty d" and "current_previous d cfg = Inr (cur, prev)"
  shows "check_alert_conditions (Some d) cfg =
    (if alert_type_of cfg = ''value'' then
       (if condition_of cfg = ''above'' then
          Inr (cur > threshold_of cfg, Some (CurrentThreshold cur (threshold_of cfg)))
        else if condition_of cfg = ''below'' then
          Inr (cur < threshold_of cfg, Some (CurrentThreshold cur (threshold_of cfg)))
        else if condition_of cfg = ''equals'' then
          Inr (\<bar>cur - threshold_of cfg\<bar> < 0.01, Some (CurrentThreshold cur (threshold_of cfg)))
        else Inr (False, None))
     else if alert_type_of cfg = ''crossover'' \<and> prev \<noteq> None then
       (if condition_of cfg = ''crosses_above'' then
          Inr (the prev \<le> threshold_of cfg \<and> threshold_of cfg < cur,
               Some (CurrentPreviousThreshold cur (the prev) (threshold_of cfg)))
        else if condition_of cfg = ''crosses_below'' then
          Inr (the prev \<ge> threshold_of cfg \<and> threshold_of cfg > cur,
               Some (CurrentPreviousThreshold cur (the prev) (threshold_of cfg)))
        else Inr (False, None))
     else if alert_type_of cfg = ''compare'' then
       (case d of DataFrame f \<Rightarrow> Inr (compare_branch f cfg (condition_of cfg) cur prev)
        | Series _ \<Rightarrow> Inr (False, None))
     else Inr (False, None))"
  unfolding check_alert_conditions_def Let_def using assms by simp

lemma known_condition_value:
  "known_condition ''value'' c = (c = ''above'' \<or> c = ''below'' \<or> c = ''equals'')"
  by (simp add: known_condition_def)

lemma known_condition_crossover:
  "known_condition ''crossover'' c = (c = ''crosses_above'' \<or> c = ''crosses_below'')"
  by (simp add: known_condition_def)

lemma known_condition_compare:
  "known_condition ''compare'' c = (c = ''crosses_above'' \<or> c = ''crosses_below'')"
  by (simp add: known_condition_def)

lemma unknown_type_condition: "\<not> known_type t \<Longrightarrow> \<not> known_condition t c"
  by (simp add: known_type_def known_condition_def)

lemma series_current_previous:
  "2 \<le> length xs \<Longrightarrow>
   current_previous (Series xs) cfg = Inr (last xs, Some (xs ! (length xs - 2)))"
  by (simp add: current_previous_def last_two_def)

lemma series_not_empty: "2 \<le> length xs \<Longrightarrow> \<not> is_empty (Series xs)"
  by (auto simp: is_empty_def)

lemma crossover_series:
  assumes "2 \<le> length xs" and "alert_type_of cfg = ''crossover''"
  shows "check_alert_conditions (Some (Series xs)) cfg =
     (if condition_of cfg = ''crosses_above'' then
        Inr (xs ! (length xs - 2) \<le> threshold_of cfg \<and> threshold_of cfg < last xs,
             Some (CurrentPreviousThreshold (last xs) (xs ! (length xs - 2)) (threshold_of cfg)))
      else if condition_of cfg = ''crosses_below'' then
        Inr (xs ! (length xs - 2) \<ge> threshold_of cfg \<and> threshold_of cfg > last xs,
             Some (CurrentPreviousThreshold (last xs) (xs ! (length xs - 2)) (threshold_of cfg)))
      else Inr (False, None))"
  unfolding check_alert_unfold[OF series_not_empty[OF assms(1)] series_current_previous[OF assms(1)]]
  using assms(2) by simp

subsection \<open>Facts about running indicator code\<close>


subsection \<open>Facts about confirmation\<close>

lemma detect_fvg_short: "length df < 4 \<Longrightarrow> detect_fvg df flt s = []"
  by (simp add: detect_fvg_def)

lemma check_fvg_after_tap_eq:
  "check_fvg_after_tap fvg_df tap_ts expected =
     (case detect_fvg (filter (\<lambda>c. timestamp c > tap_ts) fvg_df) expected 2 of
        [] \<Rightarrow> None | f # _ \<Rightarrow> Some f)"
proof (cases "length (filter (\<lambda>c. timestamp c > tap_ts) fvg_df) < 4")
  case True
  then show ?thesis
    by (simp add: check_fvg_after_tap_def detect_fvg_short)
next
  case False
  then have "fvg_df \<noteq> []" by auto
  then show ?thesis using False
    by (simp add: check_fvg_after_tap_def)
qed

lemma detect_fvg_sorted: "sorted_wrt (<) (map fvg_index (detect_fvg df flt s))"
  by (simp add: detect_fvg_def Let_def fvg_loop_sorted)

lemma detect_fvg_kind: "f \<in> set (detect_fvg df (Some d) s) \<Longrightarrow> fvg_kind f = d"
  by (auto simp: detect_fvg_def Let_def set_fvg_loop fvg_at_def split: if_splits)

lemma first_is_least:
  "sorted_wrt (<) (map fvg_index (f # fs)) \<Longrightarrow> g \<in> set (f # fs) \<Longrightarrow> fvg_index f \<le> fvg_index g"
  by auto

lemma fire_signal_confirmed:
  "check_fvg_after_tap fvg_df tap_ts expected = Some g \<Longrightarrow>
   confirmed_by fvg_df (fst (fire_signal w user_id smb ptf ftf lv trig tap_ts expected g)) g"
  by (simp add: fire_signal_def confirmed_by_def Let_def split: option.split)

lemma new_tap_loop_confirmed:
  "new_tap_loop fvg_df user_id smb ptf ftf taps (signals, w) = (signals', w') \<Longrightarrow>
   \<forall>s\<in>set signals. \<exists>g. confirmed_by fvg_df s g \<Longrightarrow>
   \<forall>s\<in>set signals'. \<exists>g. confirmed_by fvg_df s g"
proof (induction taps arbitrary: signals w)
  case Nil
  then show ?case by simp
next
  case (Cons t taps)
  show ?case
  proof (cases "check_fvg_after_tap fvg_df (tapped_timestamp t) (tapped_expected_fvg_type t)")
    case None
    then show ?thesis using Cons by simp
  next
    case (Some g)
    obtain sd w1 where f: "fire_signal w user_id smb ptf ftf (level t) (candle_close t)
        (tapped_timestamp t) (tapped_expected_fvg_type t) g = (sd, w1)"
      by (cases "fire_signal w user_id smb ptf ftf (level t) (candle_close t)
        (tapped_timestamp t) (tapped_expected_fvg_type t) g") auto
    have "confirmed_by fvg_df sd g"
      using fire_signal_confirmed[OF Some, of w user_id smb ptf ftf "level t" "candle_close t"] f
      by simp
    then have a: "\<forall>s\<in>set (signals @ [sd]). \<exists>g. confirmed_by fvg_df s g"
      using Cons.prems(2) by auto
    have "new_tap_loop fvg_df user_id smb ptf ftf taps (signals @ [sd], w1) = (signals', w')"
      using Cons.prems(1) Some f by simp
    from Cons.IH[OF this a] show ?thesis .
  qed
qed

lemma prev_tap_loop_confirmed:
  "prev_tap_loop fvg_df user_id smb ptf ftf lvls (signals, w, tls) = (signals', w', tls') \<Longrightarrow>
   \<forall>s\<in>set signals. \<exists>g. confirmed_by fvg_df s g \<Longrightarrow>
   \<forall>s\<in>set signals'. \<exists>g. confirmed_by fvg_df s g"
proof (induction lvls arbitrary: signals w tls)
  case Nil
  then show ?case by simp
next
  case (Cons lv lvls)
  show ?case
  proof (cases "triggered lv \<or> tls (level_id lv) = None")
    case True
    then have "prev_tap_loop fvg_df user_id smb ptf ftf lvls (signals, w, tls) = (signals', w', tls')"
      using Cons.prems(1) by (cases "triggered lv") simp_all
    from Cons.IH[OF this Cons.prems(2)] show ?thesis .
  next
    case False
    then obtain tap where tap: "tls (level_id lv) = Some tap" and nt: "\<not> triggered lv"
      by auto
    show ?thesis
    proof (cases "check_fvg_after_tap fvg_df (tap_timestamp tap) (expected_fvg_type tap)")
      case None
      then have "prev_tap_loop fvg_df user_id smb ptf ftf lvls (signals, w, tls) = (signals', w', tls')"
        using Cons.prems(1) tap nt by simp
      from Cons.IH[OF this Cons.prems(2)] show ?thesis .
    next
      case (Some g)
      obtain sd w1 where f: "fire_signal w user_id smb ptf ftf lv (tap_price tap)
          (tap_timestamp tap) (expected_fvg_type tap) g = (sd, w1)"
        by (cases "fire_signal w user_id smb ptf ftf lv (tap_price tap)
          (tap_timestamp tap) (expected_fvg_type tap) g") auto
      have "confirmed_by fvg_df sd g"
        using fire_signal_confirmed[OF Some, of w user_id smb ptf ftf lv "tap_price tap"] f
        by simp
      then have a: "\<forall>s\<in>set (signals @ [sd]). \<exists>g. confirmed_by fvg_df s g"
        using Cons.prems(2) by auto
      have "prev_tap_loop fvg_df user_id smb ptf ftf lvls
              (signals @ [sd], w1, tls(level_id lv := None)) = (signals', w', tls')"
        using Cons.prems(1) tap nt Some f by simp
      from Cons.IH[OF this a] show ?thesis .
    qed
  qed
qed

lemma check_fvg_signals_confirmed:
  "\<forall>s\<in>set (fst (check_fvg_signals self price_df fvg_df levels user_id smb ptf ftf)).
     \<exists>g. confirmed_by fvg_df s g"
proof (cases "price_df = [] \<or> fvg_df = [] \<or> levels = [] \<or> get_current_price price_df = None")
  case True
  then show ?thesis by (auto simp: check_fvg_signals_def)
next
  case False
  then obtain cp where cp: "get_current_price price_df = Some cp" by auto
  obtain taps tls1 where t: "check_price_tap (triggered_levels self) price_df levels cp = (taps, tls1)"
    by (cases "check_price_tap (triggered_levels self) price_df levels cp") auto
  obtain s1 w1 where n: "new_tap_loop fvg_df user_id smb ptf ftf taps ([], outside self) = (s1, w1)"
    by (cases "new_tap_loop fvg_df user_id smb ptf ftf taps ([], outside self)") auto
  obtain s2 w2 tls2 where
    p: "prev_tap_loop fvg_df user_id smb ptf ftf levels (s1, w1, tls1) = (s2, w2, tls2)"
    by (cases "prev_tap_loop fvg_df user_id smb ptf ftf levels (s1, w1, tls1)") auto
  have "fst (check_fvg_signals self price_df fvg_df levels user_id smb ptf ftf) = s2"
    using False cp t n p by (simp add: check_fvg_signals_def)
  moreover have "\<forall>s\<in>set s1. \<exists>g. confirmed_by fvg_df s g"
    by (rule new_tap_loop_confirmed[OF n]) simp
  then have "\<forall>s\<in>set s2. \<exists>g. confirmed_by fvg_df s g"
    by (rule prev_tap_loop_confirmed[OF p])
  ultimately show ?thesis by simp
qed

lemma fire_signal_carries:
  "carries (fst (fire_signal w user_id smb ptf ftf lv trig tap_ts expected g)) tap_ts expected g \<and>
   signal_price_level (fst (fire_signal w user_id smb ptf ftf lv trig tap_ts expected g)) = price lv"
  by (simp add: fire_signal_def carries_def Let_def split: option.split)

lemma new_tap_loop_emits:
  "new_tap_loop fvg_df user_id smb ptf ftf taps (signals, w) = (signals', w') \<Longrightarrow>
   set signals \<subseteq> set signals' \<and>
   (\<forall>t\<in>set taps. \<forall>g.
      check_fvg_after_tap fvg_df (tapped_timestamp t) (tapped_expected_fvg_type t) = Some g \<longrightarrow>
      (\<exists>s\<in>set signals'. carries s (tapped_timestamp t) (tapped_expected_fvg_type t) g \<and>
                         signal_price_level s = price (level t)))"
proof (induction taps arbitrary: signals w)
  case Nil
  then show ?case by simp
next
  case (Cons t taps)
  show ?case
  proof (cases "check_fvg_after_tap fvg_df (tapped_timestamp t) (tapped_expected_fvg_type t)")
    case None
    then have "new_tap_loop fvg_df user_id smb ptf ftf taps (signals, w) = (signals', w')"
      using Cons.prems by simp
    from Cons.IH[OF this] show ?thesis using None by simp
  next
    case (Some g)
    obtain sd w1 where f: "fire_signal w user_id smb ptf ftf (level t) (candle_close t)
        (tapped_timestamp t) (tapped_expected_fvg_type t) g = (sd, w1)"
      by (cases "fire_signal w user_id smb ptf ftf (level t) (candle_close t)
        (tapped_timestamp t) (tapped_expected_fvg_type t) g") auto
    have c: "carries sd (tapped_timestamp t) (tapped_expected_fvg_type t) g \<and>
             signal_price_level sd = price (level t)"
      using fire_signal_carries[of w user_id smb ptf ftf "level t" "candle_close t"
          "tapped_timestamp t" "tapped_expected_fvg_type t" g] f by simp
    have "new_tap_loop fvg_df user_id smb ptf ftf taps (signals @ [sd], w1) = (signals', w')"
      using Cons.prems Some f by simp
    from Cons.IH[OF this] have ih: "set (signals @ [sd]) \<subseteq> set signals'"
      and rest: "\<forall>t\<in>set taps. \<forall>g.
        check_fvg_after_tap fvg_df (tapped_timestamp t) (tapped_expected_fvg_type t) = Some g \<longrightarrow>
        (\<exists>s\<in>set signals'. carries s (tapped_timestamp t) (tapped_expected_fvg_type t) g \<and>
                           signal_price_level s = price (level t))"
      by blast+
    have sd: "sd \<in> set signals'" using ih by auto
    have here: "\<forall>g'. check_fvg_after_tap fvg_df (tapped_timestamp t) (tapped_expected_fvg_type t) = Some g' \<longrightarrow>
        (\<exists>s\<in>set signals'. carries s (tapped_timestamp t) (tapped_expected_fvg_type t) g' \<and>
                           signal_price_level s = price (level t))"
      using Some c sd by auto
    show ?thesis using ih rest here by auto
  qed
qed

lemma prev_tap_loop_emits:
  "prev_tap_loop fvg_df user_id smb ptf ftf lvls (signals, w, tls) = (signals', w', tls') \<Longrightarrow>
   set signals \<subseteq> set signals' \<and>
   (\<forall>lv\<in>set lvls. \<forall>tap g.
      \<not> triggered lv \<and> tls (level_id lv) = Some tap \<and>
      check_fvg_after_tap fvg_df (tap_timestamp tap) (expected_fvg_type tap) = Some g \<longrightarrow>
      (\<exists>s\<in>set signals'. carries s (tap_timestamp tap) (expected_fvg_type tap) g))"
proof (induction lvls arbitrary: signals w tls)
  case Nil
  then show ?case by simp
next
  case (Cons lv lvls)
  let ?P = "\<lambda>tls lvls. \<forall>l\<in>set lvls. \<forall>tap g.
      \<not> triggered l \<and> tls (level_id l) = Some tap \<and>
      check_fvg_after_tap fvg_df (tap_timestamp tap) (expected_fvg_type tap) = Some g \<longrightarrow>
      (\<exists>s\<in>set signals'. carries s (tap_timestamp tap) (expected_fvg_type tap) g)"
  show ?case
  proof (cases "triggered lv \<or> tls (level_id lv) = None")
    case True
    then have "prev_tap_loop fvg_df user_id smb ptf ftf lvls (signals, w, tls) = (signals', w', tls')"
      using Cons.prems by (cases "triggered lv") simp_all
    from Cons.IH[OF this] have "set signals \<subseteq> set signals'" and "?P tls lvls" by blast+
    then show ?thesis using True by auto
  next
    case False
    then obtain tap where tap: "tls (level_id lv) = Some tap" and nt: "\<not> triggered lv"
      by auto
    show ?thesis
    proof (cases "check_fvg_after_tap fvg_df (tap_timestamp tap) (expected_fvg_type tap)")
      case None
      then have "prev_tap_loop fvg_df user_id smb ptf ftf lvls (signals, w, tls) = (signals', w', tls')"
        using Cons.prems tap nt by simp
      from Cons.IH[OF this] have "set signals \<subseteq> set signals'" and "?P tls lvls" by blast+
      then show ?thesis using None tap by auto
    next
      case (Some g)
      obtain sd w1 where f: "fire_signal w user_id smb ptf ftf lv (tap_price tap)
          (tap_timestamp tap) (expected_fvg_type tap) g = (sd, w1)"
        by (cases "fire_signal w user_id smb ptf ftf lv (tap_price tap)
          (tap_timestamp tap) (expected_fvg_type tap) g") auto
      have c: "carries sd (tap_timestamp tap) (expected_fvg_type tap) g"
        using fire_signal_carries[of w user_id smb ptf ftf lv "tap_price tap"
            "tap_timestamp tap" "expected_fvg_type tap" g] f by simp
      have "prev_tap_loop fvg_df user_id smb ptf ftf lvls
              (signals @ [sd], w1, tls(level_id lv := None)) = (signals', w', tls')"
        using Cons.prems tap nt Some f by simp
      from Cons.IH[OF this] have ih: "set (signals @ [sd]) \<subseteq> set signals'"
        and rest: "?P (tls(level_id lv := None)) lvls" by blast+
      have sd: "sd \<in> set signals'" using ih by auto
      have "\<exists>s\<in>set signals'. carries s (tap_timestamp tap') (expected_fvg_type tap') g'"
        if "l \<in> set (lv # lvls)" "\<not> triggered l" "tls (level_id l) = Some tap'"
          "check_fvg_after_tap fvg_df (tap_timestamp tap') (expected_fvg_type tap') = Some g'"
        for l tap' g'
      proof (cases "level_id l = level_id lv")
        case True
        then have "tap' = tap" using that(3) tap by simp
        then have "g' = g" using that(4) Some by simp
        then show ?thesis using c sd \<open>tap' = tap\<close> by auto
      next
        case False
        then have "l \<in> set lvls" and "(tls(level_id lv := None)) (level_id l) = Some tap'"
          using that(1,3) by auto
        then show ?thesis using rest that(2,4) by blast
      qed
      then show ?thesis using ih by auto
    qed
  qed
qed

lemma check_fvg_signals_unfold:
  assumes "price_df \<noteq> []" "fvg_df \<noteq> []" "levels \<noteq> []" "get_current_price price_df = Some cp"
    and "check_price_tap (triggered_levels self) price_df levels cp = (taps, tls1)"
    and "new_tap_loop fvg_df user_id smb ptf ftf taps ([], outside self) = (s1, w1)"
    and "prev_tap_loop fvg_df user_id smb ptf ftf levels (s1, w1, tls1) = (s2, w2, tls2)"
  shows "check_fvg_signals self price_df fvg_df levels user_id smb ptf ftf =
           (s2, \<lparr>triggered_levels = tls2, outside = w2\<rparr>)"
  using assms by (simp add: check_fvg_signals_def)

lemma check_fvg_after_tap_nonempty:
  "check_fvg_after_tap fvg_df ts e = Some g \<Longrightarrow> fvg_df \<noteq> []"
  by (auto simp: check_fvg_after_tap_def)

lemma get_current_price_nonempty: "get_current_price df = Some cp \<Longrightarrow> df \<noteq> []"
  by (auto simp: get_current_price_def)

lemma check_price_tap_nonempty:
  "t \<in> set (fst (check_price_tap tls df levels cp)) \<Longrightarrow> levels \<noteq> []"
  by (auto simp: check_price_tap_def)

lemma check_fvg_signals_emits:
  assumes "get_current_price price_df = Some cp"
  shows "(\<forall>t\<in>set (fst (check_price_tap (triggered_levels self) price_df levels cp)). \<forall>g.
            check_fvg_after_tap fvg_df (tapped_timestamp t) (tapped_expected_fvg_type t) = Some g \<longrightarrow>
            (\<exists>s\<in>set (fst (check_fvg_signals self price_df fvg_df levels user_id smb ptf ftf)).
               carries s (tapped_timestamp t) (tapped_expected_fvg_type t) g \<and>
               signal_price_level s = price (level t)))"
    and "(\<forall>lv\<in>set levels. \<forall>tap g.
            \<not> triggered lv \<and>
            snd (check_price_tap (triggered_levels self) price_df levels cp) (level_id lv) = Some tap \<and>
            check_fvg_after_tap fvg_df (tap_timestamp tap) (expected_fvg_type tap) = Some g \<longrightarrow>
            (\<exists>s\<in>set (fst (check_fvg_signals self price_df fvg_df levels user_id smb ptf ftf)).
               carries s (tap_timestamp tap) (expected_fvg_type tap) g))"
proof -
  obtain taps tls1 where t: "check_price_tap (triggered_levels self) price_df levels cp = (taps, tls1)"
    by (cases "check_price_tap (triggered_levels self) price_df levels cp") auto
  obtain s1 w1 where n: "new_tap_loop fvg_df user_id smb ptf ftf taps ([], outside self) = (s1, w1)"
    by (cases "new_tap_loop fvg_df user_id smb ptf ftf taps ([], outside self)") auto
  obtain s2 w2 tls2 where
    p: "prev_tap_loop fvg_df user_id smb ptf ftf levels (s1, w1, tls1) = (s2, w2, tls2)"
    by (cases "prev_tap_loop fvg_df user_id smb ptf ftf levels (s1, w1, tls1)") auto
  note ne = new_tap_loop_emits[OF n] and pe = prev_tap_loop_emits[OF p]
  have pd: "price_df \<noteq> []" using assms by (rule get_current_price_nonempty)
  have res: "fst (check_fvg_signals self price_df fvg_df levels user_id smb ptf ftf) = s2"
    if "fvg_df \<noteq> []" "levels \<noteq> []"
    using check_fvg_signals_unfold[OF pd that assms t n p] by simp
  show "(\<forall>t\<in>set (fst (check_price_tap (triggered_levels self) price_df levels cp)). \<forall>g.
            check_fvg_after_tap fvg_df (tapped_timestamp t) (tapped_expected_fvg_type t) = Some g \<longrightarrow>
            (\<exists>s\<in>set (fst (check_fvg_signals self price_df fvg_df levels user_id smb ptf ftf)).
               carries s (tapped_timestamp t) (tapped_expected_fvg_type t) g \<and>
               signal_price_level s = price (level t)))"
  proof (intro ballI allI impI)
    fix tp g
    assume a: "tp \<in> set (fst (check_price_tap (triggered_levels self) price_df levels cp))"
      and b: "check_fvg_after_tap fvg_df (tapped_timestamp tp) (tapped_expected_fvg_type tp) = Some g"
    have r: "fst (check_fvg_signals self price_df fvg_df levels user_id smb ptf ftf) = s2"
      using res check_fvg_after_tap_nonempty[OF b] check_price_tap_nonempty[OF a] by simp
    have "tp \<in> set taps" using a t by simp
    then obtain s where "s \<in> set s1" "carries s (tapped_timestamp tp) (tapped_expected_fvg_type tp) g"
      "signal_price_level s = price (level tp)"
      using ne b by blast
    then show "\<exists>s\<in>set (fst (check_fvg_signals self price_df fvg_df levels user_id smb ptf ftf)).
               carries s (tapped_timestamp tp) (tapped_expected_fvg_type tp) g \<and>
               signal_price_level s = price (level tp)"
      unfolding r using pe by blast
  qed
  show "(\<forall>lv\<in>set levels. \<forall>tap g.
            \<not> triggered lv \<and>
            snd (check_price_tap (triggered_levels self) price_df levels cp) (level_id lv) = Some tap \<and>
            check_fvg_after_tap fvg_df (tap_timestamp tap) (expected_fvg_type tap) = Some g \<longrightarrow>
            (\<exists>s\<in>set (fst (check_fvg_signals self price_df fvg_df levels user_id smb ptf ftf)).
               carries s (tap_timestamp tap) (expected_fvg_type tap) g))"
  proof (intro ballI allI impI)
    fix lv tap g
    assume a: "lv \<in> set levels"
      and b: "\<not> triggered lv \<and>
            snd (check_price_tap (triggered_levels self) price_df levels cp) (level_id lv) = Some tap \<and>
            check_fvg_after_tap fvg_df (tap_timestamp tap) (expected_fvg_type tap) = Some g"
    have "levels \<noteq> []" using a by auto
    then have r: "fst (check_fvg_signals self price_df fvg_df levels user_id smb ptf ftf) = s2"
      using res check_fvg_after_tap_nonempty b by blast
    have "tls1 (level_id lv) = Some tap" using b t by simp
    then show "\<exists>s\<in>set (fst (check_fvg_signals self price_df fvg_df levels user_id smb ptf ftf)).
               carries s (tap_timestamp tap) (expected_fvg_type tap) g"
      unfolding r using pe a b by blast
  qed
qed

lemma late_detect:
  "detect_fvg (filter (\<lambda>c. timestamp c > 3) late_candles) (Some Bullish) 2 =
     [bullish_gap (butlast (filter (\<lambda>c. timestamp c > 3) late_candles)) 2,
      bullish_gap (butlast (filter (\<lambda>c. timestamp c > 3) late_candles)) 3]"
  by (simp add: detect_fvg_def late_candles_def ohlc_def fvg_at_def bullish_gap_def upt_rec)

lemma late_confirm:
  "check_fvg_after_tap late_candles 3 (Some Bullish) =
     Some (bullish_gap (butlast (filter (\<lambda>c. timestamp c > 3) late_candles)) 2)"
  unfolding check_fvg_after_tap_eq late_detect by simp

lemma late_gap:
  "fvg_timestamp (bullish_gap (butlast (filter (\<lambda>c. timestamp c > 3) late_candles)) 2) = 6"
  "fvg_low (bullish_gap (butlast (filter (\<lambda>c. timestamp c > 3) late_candles)) 2) = 110"
  "fvg_high (bullish_gap (butlast (filter (\<lambda>c. timestamp c > 3) late_candles)) 2) = 111"
  "fvg_index (bullish_gap (butlast (filter (\<lambda>c. timestamp c > 3) late_candles)) 2) = 2"
  "fvg_index (bullish_gap (butlast (filter (\<lambda>c. timestamp c > 3) late_candles)) 3) = 3"
  by (simp_all add: bullish_gap_def late_candles_def ohlc_def)

lemma tapped_signals:
  "map signal_fvg_timestamp
     (fst (check_fvg_signals engine_tapped tapping_candles late_candles [level_101] 7
             ''BTCUSDT'' ''1h'' ''5m'')) = [6]"
proof -
  have cp: "get_current_price tapping_candles = Some 102"
    by (simp add: get_current_price_def tapping_candles_def ohlc_def)
  have ne: "tapping_candles \<noteq> []" "late_candles \<noteq> []"
    by (simp_all add: tapping_candles_def late_candles_def)
  have lv: "level_id level_101 = 1" "price level_101 = 101" "\<not> triggered level_101"
    "enabled level_101"
    by (simp_all add: level_101_def)
  have tap: "check_price_tap (triggered_levels engine_tapped) tapping_candles [level_101] 102 =
               ([], triggered_levels engine_tapped)"
    by (simp add: check_price_tap_def engine_tapped_def lv tapping_candles_def)
  have st: "triggered_levels engine_tapped (Suc 0) =
              Some \<lparr>tap_index = 0, tap_timestamp = 3, tap_price = 101,
                    expected_fvg_type = Some Bullish\<rparr>"
    by (simp add: engine_tapped_def)
  have wh: "webhook (outside engine_tapped) 7 = None"
    by (simp add: engine_tapped_def)
  show ?thesis
    by (simp add: check_fvg_signals_def cp ne tap st lv late_confirm fire_signal_def Let_def
        late_gap wh)
qed

lemma scenario_confirm:
  "check_fvg_after_tap scenario_candles 0 (Some Bullish) = Some (bullish_gap (butlast scenario_candles) 2)"
  by (simp add: check_fvg_after_tap_def detect_fvg_def scenario_candles_def ohlc_def fvg_at_def bullish_gap_def upt_rec)

lemma tapping_tap:
  "check_price_tap Map.empty tapping_candles [level_101] 102 =
     ([\<lparr>level = level_101, candle_index = 0, tapped_timestamp = 0, candle_open = 100,
        candle_close = 102, candle_high = 102, candle_low = 99,
        tapped_expected_fvg_type = Some Bullish\<rparr>],
      [1 \<mapsto> \<lparr>tap_index = 0, tap_timestamp = 0, tap_price = 101,
              expected_fvg_type = Some Bullish\<rparr>])"
  by (simp add: check_price_tap_def tapping_candles_def level_101_def ohlc_def Let_def
        determine_101_102)

section \<open>Claims about detect_fvg\<close>

text \<open>
  C3, as stated, fails. On \<open>crossed_candles\<close> the Bearish condition
  \<open>candle[0].low > candle[2].high\<close> holds at index 2, but so does the Bullish one, and the
  \<open>elif\<close> of the loop reports the Bullish gap only; with the filter \<open>Bearish\<close> nothing is
  reported at all.
\<close>

theorem detect_fvg_crossed_counterexample:
  "low (butlast crossed_candles ! 0) > high (butlast crossed_candles ! 2) \<and>
   detect_fvg crossed_candles None 0 = [bullish_gap (butlast crossed_candles) 2] \<and>
   detect_fvg crossed_candles (Some Bearish) 0 = []"
  by (simp add: detect_fvg_def crossed_candles_def ohlc_def fvg_at_def bullish_gap_def upt_rec)

text \<open>
  C3, amended. For every candle series whose completed candles (all but the last) have
  \<open>low \<le> high\<close>, \<open>detect_fvg\<close> returns exactly what the contract says: after dropping the
  last candle, for every index \<open>i\<close> from \<open>max(2, start_idx)\<close> to the end, a Bullish FVG iff
  \<open>candle[i-2].high < candle[i].low\<close> (gap from \<open>candle[i-2].high\<close> to \<open>candle[i].low\<close>) and a
  Bearish FVG iff \<open>candle[i-2].low > candle[i].high\<close> (gap from \<open>candle[i].high\<close> to
  \<open>candle[i-2].low\<close>), a filter suppressing exactly the other case; and the indices of the
  output ascend strictly.
\<close>

theorem detect_fvg_meets_spec:
  assumes "\<forall>c\<in>set (butlast df). well_formed c"
  shows "detect_fvg df flt s = spec_detect_fvg df flt s \<and>
         sorted_wrt (<) (map fvg_index (detect_fvg df flt s))"
proof -
  have "detect_fvg df flt s = spec_detect_fvg df flt s"
  proof (cases "length df < 4")
    case True
    then show ?thesis by (simp add: detect_fvg_def spec_detect_fvg_def)
  next
    case False
    then show ?thesis
      using fvg_loop_spec[OF assms, of "[nat (max 2 s) ..< length (butlast df)]" flt]
      by (simp add: detect_fvg_def spec_detect_fvg_def Let_def)
  qed
  moreover have "sorted_wrt (<) (map fvg_index (detect_fvg df flt s))"
    by (simp add: detect_fvg_def Let_def fvg_loop_sorted)
  ultimately show ?thesis by simp
qed

theorem detect_fvg_meets_spec_witness:
  "list_all well_formed (butlast scenario_candles) \<and>
   detect_fvg scenario_candles None 0 = spec_detect_fvg scenario_candles None 0 \<and>
   spec_detect_fvg scenario_candles None 0 = [bullish_gap (butlast scenario_candles) 2]"
proof -
  have h: "\<forall>c\<in>set (butlast scenario_candles). well_formed c"
    by (simp add: scenario_candles_def ohlc_def well_formed_def)
  have "list_all well_formed (butlast scenario_candles)"
    using h by (simp add: list_all_iff)
  then show ?thesis
    using detect_fvg_meets_spec[OF h, of None 0] scenario_detect by simp
qed



text \<open>
  C8. The output of \<open>detect_fvg\<close> depends only on the candles before the last one: two
  series that agree on all but their final candle give the same result.
\<close>

theorem detect_fvg_ignores_last:
  "detect_fvg (cs @ [a]) flt s = detect_fvg (cs @ [b]) flt s"
  by (simp add: detect_fvg_def)

section \<open>Claims about tap detection\<close>

text \<open>
  C2, as stated, fails for a series of one candle: \<open>check_price_tap\<close> drops the last
  candle only \<open>if len(df) > 1\<close>, so the only (live) candle of \<open>lone_candle\<close>, at index
  0, creates the tap state of the level.
\<close>

theorem check_price_tap_lone_counterexample:
  "map candle_index (fst (check_price_tap Map.empty lone_candle [level_101] 101)) = [0] \<and>
   map_option tap_index (snd (check_price_tap Map.empty lone_candle [level_101] 101) 1) = Some 0 \<and>
   length lone_candle - 1 = 0"
  by (simp add: check_price_tap_def lone_candle_def level_101_def ohlc_def Let_def)

text \<open>
  C2, amended. For every candle series of at least two candles and every list of levels,
  every tap \<open>check_price_tap\<close> returns, and every tap state it adds to
  \<open>self.triggered_levels\<close>, comes from a candle before the last one: its index is below
  \<open>len(df) - 1\<close>, its timestamp is that candle's, and that candle's range contains the
  level's price.
\<close>

theorem check_price_tap_completed_only:
  assumes "2 \<le> length df"
  shows "(\<forall>t\<in>set (fst (check_price_tap tls df levels cp)).
            candle_index t < length df - 1 \<and>
            tapped_timestamp t = timestamp (df ! candle_index t) \<and>
            low (df ! candle_index t) \<le> price (level t) \<and>
            price (level t) \<le> high (df ! candle_index t)) \<and>
         (\<forall>lid ti. snd (check_price_tap tls df levels cp) lid = Some ti \<longrightarrow>
            tls lid = Some ti \<or>
            (tap_index ti < length df - 1 \<and> tap_timestamp ti = timestamp (df ! tap_index ti)))"
proof (cases "levels = []")
  case True
  then show ?thesis by (simp add: check_price_tap_def)
next
  case False
  obtain acc' tls' where r: "tap_loop (butlast df) cp levels ([], tls) = (acc', tls')"
    by (cases "tap_loop (butlast df) cp levels ([], tls)") auto
  have c: "check_price_tap tls df levels cp = (acc', tls')"
    using assms False r by (auto simp: check_price_tap_def Let_def)
  have inv: "(\<forall>t\<in>set acc'. tapped_on (butlast df) t) \<and>
        (\<forall>lid ti. tls' lid = Some ti \<longrightarrow> tls lid = Some ti \<or> state_on (butlast df) ti)"
    by (rule tap_loop_inv[OF r]) auto
  have len: "length (butlast df) = length df - 1" by simp
  have nth: "\<And>i. i < length df - 1 \<Longrightarrow> butlast df ! i = df ! i"
    by (simp add: nth_butlast)
  have t: "\<And>t. tapped_on (butlast df) t \<Longrightarrow>
            candle_index t < length df - 1 \<and>
            tapped_timestamp t = timestamp (df ! candle_index t) \<and>
            low (df ! candle_index t) \<le> price (level t) \<and>
            price (level t) \<le> high (df ! candle_index t)"
    unfolding tapped_on_def len using nth by auto
  have s: "\<And>ti. state_on (butlast df) ti \<Longrightarrow>
            tap_index ti < length df - 1 \<and> tap_timestamp ti = timestamp (df ! tap_index ti)"
    unfolding state_on_def len using nth by auto
  show ?thesis
    unfolding c using inv t s by (simp only: fst_conv snd_conv) blast
qed

theorem check_price_tap_completed_only_witness:
  "2 \<le> length tapping_candles \<and>
   map candle_index (fst (check_price_tap Map.empty tapping_candles [level_101] 102)) = [0] \<and>
   (0::nat) < length tapping_candles - 1"
proof -
  have h: "2 \<le> length tapping_candles" by (simp add: tapping_candles_def)
  have e: "map candle_index (fst (check_price_tap Map.empty tapping_candles [level_101] 102)) = [0]"
    by (simp add: check_price_tap_def tapping_candles_def level_101_def ohlc_def Let_def)
  show ?thesis
    using h e check_price_tap_completed_only[OF h, of Map.empty "[level_101]" 102]
    by (simp add: tapping_candles_def)
qed

section \<open>Claims about the direction policy\<close>

text \<open>
  C6, as stated, fails. With level 1001 and close 1000 the level is not above
  \<open>close * 1.001 = 1001\<close>, yet the policy answers Bearish: the literal \<open>1.001\<close> is a
  binary64 number just below 1.001 and the rounded product is \<open>1001 - 2^-43\<close>. And for a
  negative close the two bands overlap: with level and close both \<open>-100\<close> the answer is
  Bearish, although the level equals the close and is below \<open>close * 0.999\<close>.
\<close>

theorem determine_fvg_type_rounding_counterexample:
  "determine_fvg_type 1001 1000 = Some Bearish \<and> \<not> (1001 > (1000::real) * 1.001) \<and>
   determine_fvg_type (- 100) (- 100) = Some Bearish \<and> (- 100 :: real) < - 100 * 0.999"
  using determine_1001_1000 determine_neg100 by simp

text \<open>
  C6, amended. For every level price and every current close in the normal range
  (\<open>2^-1020 \<le> close \<le> 2^1022\<close>), \<open>determine_fvg_type\<close> returns Bearish iff the level is
  above the product \<open>close * 1.001\<close> as binary64 arithmetic computes it, Bullish iff the
  level is below the computed product \<open>close * 0.999\<close>, and no filter otherwise; each
  computed product is within one part in \<open>10^15\<close> of the exact one; a level at
  \<open>close * 1.0015\<close> (exact or computed) expects Bearish, at \<open>close * 0.9985\<close> (exact or
  computed) Bullish, and at the close itself either.
\<close>

theorem determine_fvg_type_policy:
  assumes "in_normal_range current"
  shows "(determine_fvg_type lvl current = Some Bearish \<longleftrightarrow>
            lvl > round_double (current * round_double 1.001)) \<and>
         (determine_fvg_type lvl current = Some Bullish \<longleftrightarrow>
            lvl < round_double (current * round_double 0.999)) \<and>
         (determine_fvg_type lvl current = None \<longleftrightarrow>
            \<not> lvl > round_double (current * round_double 1.001) \<and>
            \<not> lvl < round_double (current * round_double 0.999)) \<and>
         \<bar>round_double (current * round_double 1.001) - current * 1.001\<bar>
            \<le> current * 1.001 / 10 ^ 15 \<and>
         \<bar>round_double (current * round_double 0.999) - current * 0.999\<bar>
            \<le> current * 0.999 / 10 ^ 15 \<and>
         determine_fvg_type (current * 1.0015) current = Some Bearish \<and>
         determine_fvg_type (round_double (current * round_double 1.0015)) current = Some Bearish \<and>
         determine_fvg_type (current * 0.9985) current = Some Bullish \<and>
         determine_fvg_type (round_double (current * round_double 0.9985)) current = Some Bullish \<and>
         determine_fvg_type current current = None"
proof -
  note t = policy_thresholds[OF assms]
  have pos: "0 < current" using normal_rangeD(1)[OF assms] .
  note hi = two_sided[OF t(2)] and lo = two_sided[OF t(3)]
  have order: "round_double (current * round_double 0.999) < round_double (current * round_double 1.001)"
    using hi lo pos by simp
  have up: "current * 1.0015 - current * 1.0015 / 1000000000000000
              \<le> round_double (current * round_double 1.0015)"
    by (rule two_sided(1)[OF rounded_product(2)[OF assms]]) simp_all
  have dn: "round_double (current * round_double 0.9985)
              \<le> current * 0.9985 + current * 0.9985 / 1000000000000000"
    by (rule two_sided(2)[OF rounded_product(2)[OF assms]]) simp_all
  have 1: "determine_fvg_type lvl current = Some Bearish \<longleftrightarrow>
            lvl > round_double (current * round_double 1.001)"
    unfolding t(1) by simp
  have 2: "determine_fvg_type lvl current = Some Bullish \<longleftrightarrow>
            lvl < round_double (current * round_double 0.999)"
    unfolding t(1) using order by auto
  have 3: "determine_fvg_type lvl current = None \<longleftrightarrow>
            \<not> lvl > round_double (current * round_double 1.001) \<and>
            \<not> lvl < round_double (current * round_double 0.999)"
    unfolding t(1) by simp
  have 4: "determine_fvg_type (current * 1.0015) current = Some Bearish"
    by (rule policy_cases(1)[OF assms]) (use pos in simp)
  have 5: "determine_fvg_type (round_double (current * round_double 1.0015)) current = Some Bearish"
    by (rule policy_cases(1)[OF assms]) (use up pos in simp)
  have 6: "determine_fvg_type (current * 0.9985) current = Some Bullish"
    by (rule policy_cases(2)[OF assms]) (use pos in simp)
  have 7: "determine_fvg_type (round_double (current * round_double 0.9985)) current = Some Bullish"
    by (rule policy_cases(2)[OF assms]) (use dn pos in simp)
  have 8: "determine_fvg_type current current = None"
    by (rule policy_cases(3)[OF assms]) (use pos in simp_all)
  show ?thesis using 1 2 3 t(2) t(3) 4 5 6 7 8 by blast
qed

theorem determine_fvg_type_policy_witness:
  "in_normal_range 95 \<and> determine_fvg_type (95 * 1.0015) 95 = Some Bearish \<and>
   determine_fvg_type (95 * 0.9985) 95 = Some Bullish \<and>
   determine_fvg_type 95 95 = None"
  using determine_fvg_type_policy[OF normal_range_numeral(3), of 0] normal_range_numeral(3)
  by simp

section \<open>Claims about check_alert_conditions\<close>

text \<open>
  C5. For a single series with at least two samples, with \<open>previous\<close> the sample before
  the last and \<open>current\<close> the last, the crossover check fires \<open>crosses_above\<close> iff
  \<open>previous \<le> threshold < current\<close> and \<open>crosses_below\<close> iff
  \<open>previous \<ge> threshold > current\<close>; so \<open>previous = threshold\<close>,
  \<open>current = threshold + eps\<close> fires \<open>crosses_above\<close>, and \<open>previous = threshold - eps\<close>,
  \<open>current = threshold\<close> does not.
\<close>

theorem crossover_alert_boundary:
  assumes "alert_type_of cfg = ''crossover''"
  shows
   "(2 \<le> length xs \<and> condition_of cfg = ''crosses_above'' \<longrightarrow>
       check_alert_conditions (Some (Series xs)) cfg =
         Inr (xs ! (length xs - 2) \<le> threshold_of cfg \<and> threshold_of cfg < last xs,
              Some (CurrentPreviousThreshold (last xs) (xs ! (length xs - 2)) (threshold_of cfg)))) \<and>
    (2 \<le> length xs \<and> condition_of cfg = ''crosses_below'' \<longrightarrow>
       check_alert_conditions (Some (Series xs)) cfg =
         Inr (xs ! (length xs - 2) \<ge> threshold_of cfg \<and> threshold_of cfg > last xs,
              Some (CurrentPreviousThreshold (last xs) (xs ! (length xs - 2)) (threshold_of cfg)))) \<and>
    (0 < eps \<and> condition_of cfg = ''crosses_above'' \<longrightarrow>
       check_alert_conditions (Some (Series (ys @ [threshold_of cfg, threshold_of cfg + eps]))) cfg =
         Inr (True, Some (CurrentPreviousThreshold (threshold_of cfg + eps) (threshold_of cfg)
                           (threshold_of cfg))) \<and>
       check_alert_conditions (Some (Series (ys @ [threshold_of cfg - eps, threshold_of cfg]))) cfg =
         Inr (False, Some (CurrentPreviousThreshold (threshold_of cfg) (threshold_of cfg - eps)
                            (threshold_of cfg))))"
proof -
  have a: "2 \<le> length (ys @ [threshold_of cfg, threshold_of cfg + eps])"
    and b: "2 \<le> length (ys @ [threshold_of cfg - eps, threshold_of cfg])"
    by simp_all
  show ?thesis
    using crossover_series[OF _ assms, of xs] crossover_series[OF a assms] crossover_series[OF b assms]
    by (simp add: nth_append)
qed

theorem crossover_alert_boundary_witness:
  "alert_type_of (crossover_config ''crosses_above'') = ''crossover'' \<and>
   check_alert_conditions (Some (Series [40, 50, 51])) (crossover_config ''crosses_above'') =
     Inr (True, Some (CurrentPreviousThreshold 51 50 50)) \<and>
   check_alert_conditions (Some (Series [40, 49, 50])) (crossover_config ''crosses_above'') =
     Inr (False, Some (CurrentPreviousThreshold 50 49 50))"
proof -
  have t: "alert_type_of (crossover_config ''crosses_above'') = ''crossover''"
    by (simp add: alert_type_of_def crossover_config_def)
  have c: "condition_of (crossover_config ''crosses_above'') = ''crosses_above''"
    and th: "threshold_of (crossover_config ''crosses_above'') = 50"
    by (simp_all add: condition_of_def threshold_of_def crossover_config_def)
  show ?thesis
    using t crossover_alert_boundary[OF t, of "[40, 50, 51]" 1 "[]"]
      crossover_alert_boundary[OF t, of "[40, 49, 50]" 1 "[]"]
    by (simp add: c th)
qed

text \<open>
  C10, as stated, fails for a DataFrame when the configuration names a \<open>line\<close> that is
  not one of its columns: the column is read before the type is looked at, and the read
  raises \<open>KeyError\<close>.
\<close>

theorem unknown_alert_counterexample:
  "\<not> is_empty (DataFrame macd_frame) \<and>
   \<not> known_type (alert_type_of bogus_config) \<and>
   check_alert_conditions (Some (DataFrame macd_frame)) bogus_config = Inl (KeyError ''nope'')"
  by (simp add: is_empty_def known_type_def check_alert_conditions_def current_previous_def
      column_def macd_frame_def bogus_config_def alert_type_of_def)

text \<open>
  C10, amended. For every non-empty indicator output that is a single series, or a
  DataFrame whose configured \<open>line\<close> (when the configuration has one) is one of its columns,
  \<open>check_alert_conditions\<close> with a type that is not one of value, crossover, compare, or a
  condition that is not one its type has a branch for, returns \<open>(False, None)\<close> and does not
  raise.
\<close>

theorem unknown_alert_returns_false:
  assumes "\<not> is_empty d" and "line_present d cfg"
    and "\<not> known_type (alert_type_of cfg) \<or> \<not> known_condition (alert_type_of cfg) (condition_of cfg)"
  shows "check_alert_conditions (Some d) cfg = Inr (False, None)"
proof -
  obtain cur prev where cp: "current_previous d cfg = Inr (cur, prev)"
    using current_previous_ok[OF assms(2,1)] by blast
  note u = check_alert_unfold[OF assms(1) cp]
  have nk: "\<not> known_condition (alert_type_of cfg) (condition_of cfg)"
    using assms(3) unknown_type_condition by blast
  show ?thesis
  proof (cases "alert_type_of cfg = ''value''")
    case True
    then have "condition_of cfg \<noteq> ''above'' \<and> condition_of cfg \<noteq> ''below'' \<and>
               condition_of cfg \<noteq> ''equals''"
      using nk by (simp add: known_condition_value)
    then show ?thesis unfolding u using True by simp
  next
    case nv: False
    show ?thesis
    proof (cases "alert_type_of cfg = ''crossover''")
      case True
      then have "condition_of cfg \<noteq> ''crosses_above'' \<and> condition_of cfg \<noteq> ''crosses_below''"
        using nk by (simp add: known_condition_crossover)
      then show ?thesis unfolding u using True nv by simp
    next
      case nx: False
      show ?thesis
      proof (cases "alert_type_of cfg = ''compare''")
        case True
        then have "condition_of cfg \<noteq> ''crosses_above'' \<and> condition_of cfg \<noteq> ''crosses_below''"
          using nk by (simp add: known_condition_compare)
        then show ?thesis unfolding u using True nv nx
          by (cases d) (simp_all add: compare_branch_unknown)
      next
        case False
        then show ?thesis unfolding u using nv nx by simp
      qed
    qed
  qed
qed

theorem unknown_alert_returns_false_witness:
  "\<not> is_empty (DataFrame macd_frame) \<and>
   line_present (DataFrame macd_frame) (crossover_config ''equals'') \<and>
   \<not> known_condition (alert_type_of (crossover_config ''equals''))
        (condition_of (crossover_config ''equals'')) \<and>
   check_alert_conditions (Some (DataFrame macd_frame)) (crossover_config ''equals'') =
     Inr (False, None)"
proof -
  have a: "\<not> is_empty (DataFrame macd_frame)"
    by (simp add: is_empty_def macd_frame_def)
  have b: "line_present (DataFrame macd_frame) (crossover_config ''equals'')"
    by (simp add: line_present_def crossover_config_def)
  have c: "\<not> known_condition (alert_type_of (crossover_config ''equals''))
             (condition_of (crossover_config ''equals''))"
    by (simp add: known_condition_def alert_type_of_def condition_of_def crossover_config_def)
  show ?thesis
    using a b c unknown_alert_returns_false[OF a b disjI2[OF c]] by simp
qed

section \<open>Claims about execute_indicator\<close>




section \<open>Claims about confirmation and signals\<close>

text \<open>
  C4. \<open>check_fvg_after_tap\<close> runs \<open>detect_fvg\<close>, with the expected direction as filter
  and start offset 2, over the candles of the confirmation series whose timestamp is
  strictly greater than the tap timestamp; when that finds at least one FVG it returns the
  first, which has the lowest index and the expected direction, and nothing otherwise.
  That gap is the one used for the Signal: every Signal \<open>check_fvg_signals\<close> returns
  carries the gap so returned for its tap timestamp and expected direction; and, in a call
  that gets as far as the taps (the price series has a completed candle), every level
  tapped in the call, and every untriggered level of the list with a stored tap state,
  for which \<open>check_fvg_after_tap\<close> returns a gap has a Signal in the result that carries
  this gap.
\<close>

theorem check_fvg_after_tap_earliest:
  "check_fvg_after_tap fvg_df tap_ts expected =
     (case detect_fvg (filter (\<lambda>c. timestamp c > tap_ts) fvg_df) expected 2 of
        [] \<Rightarrow> None | f # _ \<Rightarrow> Some f) \<and>
   (\<forall>f g. check_fvg_after_tap fvg_df tap_ts expected = Some f \<and>
           g \<in> set (detect_fvg (filter (\<lambda>c. timestamp c > tap_ts) fvg_df) expected 2) \<longrightarrow>
           fvg_index f \<le> fvg_index g) \<and>
   (\<forall>f d. check_fvg_after_tap fvg_df tap_ts expected = Some f \<and> expected = Some d \<longrightarrow>
           fvg_kind f = d) \<and>
   (\<forall>s\<in>set (fst (check_fvg_signals self price_df fvg_df levels user_id smb ptf ftf)).
      \<exists>g. confirmed_by fvg_df s g) \<and>
   (\<forall>cp. get_current_price price_df = Some cp \<longrightarrow>
      (\<forall>t\<in>set (fst (check_price_tap (triggered_levels self) price_df levels cp)). \<forall>g.
         check_fvg_after_tap fvg_df (tapped_timestamp t) (tapped_expected_fvg_type t) = Some g \<longrightarrow>
         (\<exists>s\<in>set (fst (check_fvg_signals self price_df fvg_df levels user_id smb ptf ftf)).
            carries s (tapped_timestamp t) (tapped_expected_fvg_type t) g \<and>
            signal_price_level s = price (level t))) \<and>
      (\<forall>lv\<in>set levels. \<forall>tap g.
         \<not> triggered lv \<and>
         snd (check_price_tap (triggered_levels self) price_df levels cp) (level_id lv) = Some tap \<and>
         check_fvg_after_tap fvg_df (tap_timestamp tap) (expected_fvg_type tap) = Some g \<longrightarrow>
         (\<exists>s\<in>set (fst (check_fvg_signals self price_df fvg_df levels user_id smb ptf ftf)).
            carries s (tap_timestamp tap) (expected_fvg_type tap) g)))"
proof -
  let ?found = "detect_fvg (filter (\<lambda>c. timestamp c > tap_ts) fvg_df) expected 2"
  note eq = check_fvg_after_tap_eq[of fvg_df tap_ts expected]
  have least: "fvg_index f \<le> fvg_index g"
    if "check_fvg_after_tap fvg_df tap_ts expected = Some f" "g \<in> set ?found" for f g
  proof -
    have "(case ?found of [] \<Rightarrow> None | f # _ \<Rightarrow> Some f) = Some f"
      using that(1) eq by simp
    then obtain fs where fs: "?found = f # fs"
      by (auto split: list.splits)
    show ?thesis
      using first_is_least[of f fs g]
        detect_fvg_sorted[of "filter (\<lambda>c. timestamp c > tap_ts) fvg_df" expected 2]
        that(2) unfolding fs by simp
  qed
  have kind: "fvg_kind f = d"
    if "check_fvg_after_tap fvg_df tap_ts expected = Some f" "expected = Some d" for f d
  proof -
    have "(case ?found of [] \<Rightarrow> None | f # _ \<Rightarrow> Some f) = Some f"
      using that(1) eq by simp
    then obtain fs where fs: "?found = f # fs"
      by (auto split: list.splits)
    then have "f \<in> set (detect_fvg (filter (\<lambda>c. timestamp c > tap_ts) fvg_df) (Some d) 2)"
      using that(2) by simp
    then show ?thesis by (rule detect_fvg_kind)
  qed
  have em: "(\<forall>t\<in>set (fst (check_price_tap (triggered_levels self) price_df levels cp)). \<forall>g.
         check_fvg_after_tap fvg_df (tapped_timestamp t) (tapped_expected_fvg_type t) = Some g \<longrightarrow>
         (\<exists>s\<in>set (fst (check_fvg_signals self price_df fvg_df levels user_id smb ptf ftf)).
            carries s (tapped_timestamp t) (tapped_expected_fvg_type t) g \<and>
            signal_price_level s = price (level t))) \<and>
      (\<forall>lv\<in>set levels. \<forall>tap g.
         \<not> triggered lv \<and>
         snd (check_price_tap (triggered_levels self) price_df levels cp) (level_id lv) = Some tap \<and>
         check_fvg_after_tap fvg_df (tap_timestamp tap) (expected_fvg_type tap) = Some g \<longrightarrow>
         (\<exists>s\<in>set (fst (check_fvg_signals self price_df fvg_df levels user_id smb ptf ftf)).
            carries s (tap_timestamp tap) (expected_fvg_type tap) g))"
    if "get_current_price price_df = Some cp" for cp
    using check_fvg_signals_emits[OF that, where self = self and levels = levels
        and fvg_df = fvg_df and user_id = user_id and smb = smb and ptf = ptf and ftf = ftf]
    by (rule conjI)
  have a: "\<forall>f g. check_fvg_after_tap fvg_df tap_ts expected = Some f \<and> g \<in> set ?found \<longrightarrow>
           fvg_index f \<le> fvg_index g"
    using least by blast
  have b: "\<forall>f d. check_fvg_after_tap fvg_df tap_ts expected = Some f \<and> expected = Some d \<longrightarrow>
           fvg_kind f = d"
    using kind by blast
  have c: "\<forall>cp. get_current_price price_df = Some cp \<longrightarrow>
      (\<forall>t\<in>set (fst (check_price_tap (triggered_levels self) price_df levels cp)). \<forall>g.
         check_fvg_after_tap fvg_df (tapped_timestamp t) (tapped_expected_fvg_type t) = Some g \<longrightarrow>
         (\<exists>s\<in>set (fst (check_fvg_signals self price_df fvg_df levels user_id smb ptf ftf)).
            carries s (tapped_timestamp t) (tapped_expected_fvg_type t) g \<and>
            signal_price_level s = price (level t))) \<and>
      (\<forall>lv\<in>set levels. \<forall>tap g.
         \<not> triggered lv \<and>
         snd (check_price_tap (triggered_levels self) price_df levels cp) (level_id lv) = Some tap \<and>
         check_fvg_after_tap fvg_df (tap_timestamp tap) (expected_fvg_type tap) = Some g \<longrightarrow>
         (\<exists>s\<in>set (fst (check_fvg_signals self price_df fvg_df levels user_id smb ptf ftf)).
            carries s (tap_timestamp tap) (expected_fvg_type tap) g))"
    using em by blast
  from eq a b check_fvg_signals_confirmed[of self price_df fvg_df levels user_id smb ptf ftf] c
  show ?thesis by (intro conjI)
qed

theorem check_fvg_after_tap_earliest_witness:
  "map fvg_index (detect_fvg (filter (\<lambda>c. timestamp c > 3) late_candles) (Some Bullish) 2) = [2, 3] \<and>
   map_option fvg_timestamp (check_fvg_after_tap late_candles 3 (Some Bullish)) = Some 6 \<and>
   map_option fvg_low (check_fvg_after_tap late_candles 3 (Some Bullish)) = Some 110 \<and>
   map_option fvg_kind (check_fvg_after_tap late_candles 3 (Some Bullish)) = Some Bullish \<and>
   map signal_fvg_timestamp
     (fst (check_fvg_signals engine_tapped tapping_candles late_candles [level_101] 7
             ''BTCUSDT'' ''1h'' ''5m'')) = [6]"
  using check_fvg_after_tap_earliest[of late_candles 3 "Some Bullish" engine_tapped
      tapping_candles "[level_101]" 7 "''BTCUSDT''" "''1h''" "''5m''"]
    tapped_signals late_detect late_confirm late_gap
  by (simp add: bullish_gap_def)

text \<open>
  C1 does not hold of the code. A level is tapped in this call (one completed candle of
  \<open>tapping_candles\<close> contains 101) and the confirming gap is already in the confirmation
  series (\<open>scenario_candles\<close>, all after the tap): the loop over the newly tapped levels
  fires a Signal, and the loop over the previously tapped levels, which finds the tap state
  just stored and the level's \<open>triggered\<close> flag still false in the list it was given,
  fires a second one for the same level and tap in the same call.
\<close>

theorem check_fvg_signals_fires_twice:
  "map signal_price_level
     (fst (check_fvg_signals engine0 tapping_candles scenario_candles [level_101] 7
             ''BTCUSDT'' ''1h'' ''5m'')) = [101, 101] \<and>
   map signal_tap_timestamp
     (fst (check_fvg_signals engine0 tapping_candles scenario_candles [level_101] 7
             ''BTCUSDT'' ''1h'' ''5m'')) = [0, 0] \<and>
   map signal_id
     (fst (check_fvg_signals engine0 tapping_candles scenario_candles [level_101] 7
             ''BTCUSDT'' ''1h'' ''5m'')) = [1, 2]"
proof -
  have cp: "get_current_price tapping_candles = Some 102"
    by (simp add: get_current_price_def tapping_candles_def ohlc_def)
  have ne: "tapping_candles \<noteq> []" "scenario_candles \<noteq> []"
    by (simp_all add: tapping_candles_def scenario_candles_def)
  have lv: "level_id level_101 = 1" "price level_101 = 101" "\<not> triggered level_101"
    by (simp_all add: level_101_def)
  show ?thesis
    by (simp add: check_fvg_signals_def cp ne tapping_tap engine0_def scenario_confirm
        fire_signal_def Let_def lv)
qed

end
